theory Spec2Isabelle
  imports Complex_Main
begin

section \<open>Data model (types/memory.ts)\<close>

text \<open>
  JavaScript numbers are modelled as follows: strengths, confidences, similarities and
  embedding components are \<^typ>\<open>real\<close> (rounding and NaN are not modelled), timestamps are
  \<^typ>\<open>int\<close> (milliseconds). An optional property is an \<^typ>\<open>'a option\<close>.
\<close>

datatype memory_type = Fact | Concept | Relationship

datatype connection_type = Related_to | Part_of | Depends_on | Causes | Similar_to

record connection =
  c_type :: connection_type
  c_targetId :: string
  c_strength :: real
  c_description :: "string option"

text \<open>
  The \<open>metadata\<close> object of a Memory. \<open>md_timestamp\<close> is not part of the declared type; the
  extraction service writes it into the untyped object it builds.
\<close>

record metadata =
  md_workspace :: "string option"
  md_thread :: "string option"
  md_context :: "string option"
  md_tags :: "string list option"
  md_timestamp :: "int option"

text \<open>
  \<open>Memory\<close>. The interface declares \<open>source: string\<close>, but the store's \<open>addMemory\<close> takes a
  \<open>Partial<Memory>\<close> and gives \<open>source\<close> no default, so the field can be absent at run time.
\<close>

record Memory =
  m_id :: string
  m_type :: memory_type
  m_content :: string
  m_source :: "string option"
  m_timestamp :: int
  m_confidence :: real
  m_connections :: "connection list"
  m_metadata :: metadata

text \<open>\<open>Partial<Memory> & { content: string; type: Memory['type'] }\<close>, the argument of \<open>addMemory\<close>.\<close>

record PartialMemory =
  p_id :: "string option"
  p_type :: memory_type
  p_content :: string
  p_source :: "string option"
  p_timestamp :: "int option"
  p_confidence :: "real option"
  p_connections :: "connection list option"
  p_metadata :: "metadata option"

text \<open>\<open>StoredMemory\<close>, the record of the vector store (services/vectorStore/index.ts).\<close>

record stored_metadata =
  sm_type :: memory_type
  sm_source :: "string option"
  sm_confidence :: real
  sm_workspace :: "string option"
  sm_thread :: "string option"
  sm_timestamp :: int
  sm_tags :: "string list"

record StoredMemory =
  s_id :: string
  s_embedding :: "real list"
  s_metadata :: stored_metadata
  s_content :: string

text \<open>One element of the result of \<open>findSimilarMemories\<close>: \<open>{ memory, similarity }\<close>.\<close>

record match =
  r_memory :: Memory
  r_similarity :: real

datatype error =
  EmbeddingError | DimensionMismatch | StorageError | LanguageModelError | ExtractionParseError

section \<open>JavaScript library functions used by the code\<close>

text \<open>\<open>a || b\<close> on an optional string, number or array: the empty string and 0 are falsy.\<close>

definition or_string :: "string option \<Rightarrow> string \<Rightarrow> string" where
  "or_string a b = (case a of None \<Rightarrow> b | Some s \<Rightarrow> if s = [] then b else s)"

definition or_number :: "'a::zero option \<Rightarrow> 'a \<Rightarrow> 'a" where
  "or_number a b = (case a of None \<Rightarrow> b | Some x \<Rightarrow> if x = 0 then b else x)"

definition or_array :: "'a list option \<Rightarrow> 'a list \<Rightarrow> 'a list" where
  "or_array a b = (case a of None \<Rightarrow> b | Some xs \<Rightarrow> xs)"

text \<open>\<open>Array.prototype.findIndex\<close>, with \<open>None\<close> for the result -1.\<close>

fun findIndex :: "('a \<Rightarrow> bool) \<Rightarrow> 'a list \<Rightarrow> nat option" where
  "findIndex P [] = None"
| "findIndex P (x # xs) =
     (if P x then Some 0 else (case findIndex P xs of None \<Rightarrow> None | Some i \<Rightarrow> Some (Suc i)))"

text \<open>
  \<open>Array.prototype.sort(compare)\<close>: a stable sort; \<open>a\<close> stays in front of \<open>b\<close> unless
  \<open>compare(a, b) > 0\<close>.
\<close>

fun insert_sorted :: "('a \<Rightarrow> 'a \<Rightarrow> 'b::linordered_idom) \<Rightarrow> 'a \<Rightarrow> 'a list \<Rightarrow> 'a list" where
  "insert_sorted compare x [] = [x]"
| "insert_sorted compare x (y # ys) =
     (if compare x y \<le> 0 then x # y # ys else y # insert_sorted compare x ys)"

definition js_sort :: "('a \<Rightarrow> 'a \<Rightarrow> 'b::linordered_idom) \<Rightarrow> 'a list \<Rightarrow> 'a list" where
  "js_sort compare xs = foldr (insert_sorted compare) xs []"

text \<open>\<open>Array.prototype.slice(0, end)\<close> for an integer \<open>stop\<close>: a negative \<open>stop\<close> counts from the back.\<close>

definition slice0 :: "int \<Rightarrow> 'a list \<Rightarrow> 'a list" where
  "slice0 stop xs =
     (if stop < 0 then take (nat (int (length xs) + stop)) xs else take (nat stop) xs)"

text \<open>
  A JavaScript \<open>Set\<close> and \<open>Map\<close> iterate in insertion order: a list of distinct elements and an
  association list with distinct keys. Setting an existing key keeps its position.
\<close>

definition Set_add :: "'a \<Rightarrow> 'a list \<Rightarrow> 'a list" where
  "Set_add x xs = (if x \<in> set xs then xs else xs @ [x])"

fun Map_set :: "'k \<Rightarrow> 'v \<Rightarrow> ('k \<times> 'v) list \<Rightarrow> ('k \<times> 'v) list" where
  "Map_set k v [] = [(k, v)]"
| "Map_set k v ((k', v') # kvs) =
     (if k' = k then (k, v) # kvs else (k', v') # Map_set k v kvs)"

definition Map_get :: "('k \<times> 'v) list \<Rightarrow> 'k \<Rightarrow> 'v option" where
  "Map_get kvs k = map_of kvs k"

definition Map_new :: "('k \<times> 'v) list \<Rightarrow> ('k \<times> 'v) list" where
  "Map_new entries = fold (\<lambda>(k, v) m. Map_set k v m) entries []"

text \<open>
  \<open>String.prototype.toLowerCase\<close> and \<open>String.prototype.includes\<close>. Strings are lists of
  8-bit characters here, and \<open>toLowerCase\<close> folds the letters A to Z only: on text with cased
  letters outside ASCII the code folds more than this function does.
\<close>

definition toLowerCase :: "string \<Rightarrow> string" where
  "toLowerCase s =
     map (\<lambda>c. let n = (of_char c :: nat) in if 65 \<le> n \<and> n \<le> 90 then char_of (n + 32) else c) s"

fun includes_str :: "string \<Rightarrow> string \<Rightarrow> bool" where
  "includes_str [] needle = (needle = [])"
| "includes_str (h # hay) needle =
     (take (length needle) (h # hay) = needle \<or> includes_str hay needle)"

text \<open>Running a fallible function over an array; the first exception ends the traversal.\<close>

fun map_throwing :: "('a \<Rightarrow> error + 'b) \<Rightarrow> 'a list \<Rightarrow> error + 'b list" where
  "map_throwing f [] = Inr []"
| "map_throwing f (x # xs) =
     (case f x of
        Inl e \<Rightarrow> Inl e
      | Inr y \<Rightarrow> (case map_throwing f xs of Inl e \<Rightarrow> Inl e | Inr ys \<Rightarrow> Inr (y # ys)))"

section \<open>Similarity function (services/embeddings)\<close>

text \<open>
  \<open>cosineSimilarity(a, b)\<close> of \<open>services/google.ts\<close>. The JavaScript numbers are taken as
  real numbers and the arithmetic as exact: the rounding, the overflow to \<open>Infinity\<close> and
  \<open>NaN\<close> and the underflow to 0 of IEEE 754 doubles are outside this model, so a statement
  about the value returned holds of the code only where no intermediate result overflows or
  underflows, and then up to rounding.
\<close>

definition cosineSimilarity :: "real list \<Rightarrow> real list \<Rightarrow> error + real" where
  "cosineSimilarity a b =
     (if length a \<noteq> length b then Inl DimensionMismatch
      else
        let (dotProduct, normA, normB) =
              fold (\<lambda>i (dotProduct, normA, normB).
                      (dotProduct + a ! i * b ! i, normA + a ! i * a ! i, normB + b ! i * b ! i))
                   [0..<length a] (0, 0, 0);
            normA = sqrt normA;
            normB = sqrt normB
        in if normA = 0 \<or> normB = 0 then Inr 0
           else Inr (dotProduct / (normA * normB)))"

text \<open>The quantities the specification names: the dot product and the Euclidean norm.\<close>

definition dot :: "real list \<Rightarrow> real list \<Rightarrow> real" where
  "dot a b = sum_list (map2 (*) a b)"

definition magnitude :: "real list \<Rightarrow> real" where
  "magnitude a = sqrt (sum_list (map (\<lambda>x. x * x) a))"

section \<open>Vector store (services/vectorStore/index.ts)\<close>

text \<open>
  The collaborators of the vector store: the embedding provider and the browser's
  \<open>localStorage\<close>, whose state has type \<^typ>\<open>'st\<close>. \<open>setItem\<close> stands for
  \<open>localStorage.setItem(key, JSON.stringify(memories))\<close> and \<open>getItem\<close> for
  \<open>localStorage.getItem(key)\<close> followed by \<open>JSON.parse\<close> (\<open>None\<close>: no item under the key).
  Each of them can throw.
\<close>

record 'st env =
  generateEmbedding :: "string \<Rightarrow> error + real list"
  setItem :: "'st \<Rightarrow> StoredMemory list \<Rightarrow> error + 'st"
  getItem :: "'st \<Rightarrow> error + StoredMemory list option"

record 'st VectorStore =
  memories :: "StoredMemory list"
  storage :: "'st"

text \<open>
  An operation returns its outcome (\<open>Inl\<close>: the exception that reaches the caller) together
  with the state it leaves behind.
\<close>

definition loadFromStorage :: "'st env \<Rightarrow> 'st VectorStore \<Rightarrow> (error + unit) \<times> 'st VectorStore" where
  "loadFromStorage env vs =
     (case getItem env (storage vs) of
        Inl e \<Rightarrow> (Inr (), vs)
      | Inr None \<Rightarrow> (Inr (), vs)
      | Inr (Some stored) \<Rightarrow> (Inr (), vs\<lparr>memories := stored\<rparr>))"

text \<open>The constructor: \<open>memories = []\<close>, then \<open>loadFromStorage()\<close>.\<close>

definition new_VectorStore :: "'st env \<Rightarrow> 'st \<Rightarrow> (error + unit) \<times> 'st VectorStore" where
  "new_VectorStore env st = loadFromStorage env \<lparr>memories = [], storage = st\<rparr>"

definition saveToStorage :: "'st env \<Rightarrow> 'st VectorStore \<Rightarrow> (error + unit) \<times> 'st VectorStore" where
  "saveToStorage env vs =
     (case setItem env (storage vs) (memories vs) of
        Inl e \<Rightarrow> (Inr (), vs)
      | Inr st' \<Rightarrow> (Inr (), vs\<lparr>storage := st'\<rparr>))"

definition toStoredMemory :: "Memory \<Rightarrow> real list \<Rightarrow> StoredMemory" where
  "toStoredMemory memory embedding =
     \<lparr>s_id = m_id memory,
      s_embedding = embedding,
      s_metadata =
        \<lparr>sm_type = m_type memory,
         sm_source = m_source memory,
         sm_confidence = m_confidence memory,
         sm_workspace = md_workspace (m_metadata memory),
         sm_thread = md_thread (m_metadata memory),
         sm_timestamp = m_timestamp memory,
         sm_tags = or_array (md_tags (m_metadata memory)) []\<rparr>,
      s_content = m_content memory\<rparr>"

definition VectorStore_addMemory ::
  "'st env \<Rightarrow> Memory \<Rightarrow> 'st VectorStore \<Rightarrow> (error + unit) \<times> 'st VectorStore" where
  "VectorStore_addMemory env memory vs =
     (case generateEmbedding env (m_content memory) of
        Inl e \<Rightarrow> (Inl e, vs)
      | Inr embedding \<Rightarrow>
          let storedMemory = toStoredMemory memory embedding;
              vs' = (case findIndex (\<lambda>m. s_id m = m_id memory) (memories vs) of
                       Some index \<Rightarrow> vs\<lparr>memories := (memories vs)[index := storedMemory]\<rparr>
                     | None \<Rightarrow> vs\<lparr>memories := memories vs @ [storedMemory]\<rparr>)
          in saveToStorage env vs')"

definition toMemory :: "StoredMemory \<Rightarrow> Memory" where
  "toMemory storedMemory =
     \<lparr>m_id = s_id storedMemory,
      m_type = sm_type (s_metadata storedMemory),
      m_content = s_content storedMemory,
      m_source = sm_source (s_metadata storedMemory),
      m_timestamp = sm_timestamp (s_metadata storedMemory),
      m_confidence = sm_confidence (s_metadata storedMemory),
      m_connections = [],
      m_metadata =
        \<lparr>md_workspace = sm_workspace (s_metadata storedMemory),
         md_thread = sm_thread (s_metadata storedMemory),
         md_context = None,
         md_tags = Some (sm_tags (s_metadata storedMemory)),
         md_timestamp = None\<rparr>\<rparr>"

text \<open>
  \<open>findSimilarMemories(content, limit = 5, minSimilarity = 0.7)\<close>. The whole body is inside
  \<open>try\<close>; the \<open>catch\<close> logs and returns \<open>[]\<close>. It does not change the store.
\<close>

definition findSimilarMemories ::
  "'st env \<Rightarrow> string \<Rightarrow> int \<Rightarrow> real \<Rightarrow> 'st VectorStore \<Rightarrow> error + match list" where
  "findSimilarMemories env content limit minSimilarity vs =
     (case generateEmbedding env content of
        Inl e \<Rightarrow> Inr []
      | Inr queryEmbedding \<Rightarrow>
          (case map_throwing
                  (\<lambda>storedMemory.
                     case cosineSimilarity queryEmbedding (s_embedding storedMemory) of
                       Inl e \<Rightarrow> Inl e
                     | Inr similarity \<Rightarrow> Inr (storedMemory, similarity))
                  (memories vs) of
             Inl e \<Rightarrow> Inr []
           | Inr similarities \<Rightarrow>
               Inr (map (\<lambda>(storedMemory, similarity).
                           \<lparr>r_memory = toMemory storedMemory, r_similarity = similarity\<rparr>)
                      (slice0 limit
                         (js_sort (\<lambda>a b. snd b - snd a)
                            (filter (\<lambda>(storedMemory, similarity). similarity \<ge> minSimilarity)
                               similarities))))))"

definition default_limit :: int where
  "default_limit = 5"

definition default_minSimilarity :: real where
  "default_minSimilarity = 7 / 10"

definition deleteMemory :: "'st env \<Rightarrow> string \<Rightarrow> 'st VectorStore \<Rightarrow> (error + unit) \<times> 'st VectorStore" where
  "deleteMemory env ident vs =
     saveToStorage env (vs\<lparr>memories := filter (\<lambda>m. s_id m \<noteq> ident) (memories vs)\<rparr>)"

definition clear :: "'st env \<Rightarrow> 'st VectorStore \<Rightarrow> (error + unit) \<times> 'st VectorStore" where
  "clear env vs = saveToStorage env (vs\<lparr>memories := []\<rparr>)"

section \<open>Memory store (the zustand store with \<open>addMemory\<close>, \<open>addConnection\<close>, \<open>getRelatedMemories\<close>)\<close>

text \<open>
  The store's \<open>memories\<close> array together with the vector store singleton it calls. The
  panel, filter and search fields of the store are not touched by the operations below. The
  \<open>persist\<close> middleware, which writes the store's own state to the browser storage after
  every \<open>set\<close>, is not part of this model: no operation below reads that copy back.
\<close>

record 'st app =
  state_memories :: "Memory list"
  vectorStore :: "'st VectorStore"

text \<open>
  \<open>addMemory(memory)\<close>. \<open>uuid\<close> and \<open>now\<close> are what \<open>crypto.randomUUID()\<close> and \<open>Date.now()\<close>
  return when they are called.
\<close>

definition newMemory :: "string \<Rightarrow> int \<Rightarrow> PartialMemory \<Rightarrow> Memory" where
  "newMemory uuid now memory =
     \<lparr>m_id = or_string (p_id memory) uuid,
      m_type = p_type memory,
      m_content = p_content memory,
      m_source = p_source memory,
      m_timestamp = or_number (p_timestamp memory) now,
      m_confidence = or_number (p_confidence memory) 1,
      m_connections = or_array (p_connections memory) [],
      m_metadata =
        (case p_metadata memory of
           None \<Rightarrow>
             \<lparr>md_workspace = None, md_thread = None, md_context = None,
              md_tags = Some [], md_timestamp = None\<rparr>
         | Some md \<Rightarrow> md\<lparr>md_tags := Some (or_array (md_tags md) [])\<rparr>)\<rparr>"

definition addMemory ::
  "'st env \<Rightarrow> string \<Rightarrow> int \<Rightarrow> PartialMemory \<Rightarrow> 'st app \<Rightarrow> (error + unit) \<times> 'st app" where
  "addMemory env uuid now memory app =
     (let new = newMemory uuid now memory in
      case VectorStore_addMemory env new (vectorStore app) of
        (Inl e, vs') \<Rightarrow> (Inl e, app\<lparr>vectorStore := vs'\<rparr>)
      | (Inr u, vs') \<Rightarrow>
          (let filteredMemories =
                 filter (\<lambda>m. if m_id new \<noteq> [] then m_id m \<noteq> m_id new else True)
                   (state_memories app)
           in (Inr (),
               app\<lparr>vectorStore := vs',
                   state_memories :=
                     js_sort (\<lambda>a b. m_timestamp b - m_timestamp a)
                       (filteredMemories @ [new])\<rparr>)))"

text \<open>
  The array \<open>connections\<close> that \<open>addConnection\<close> builds for the source memory: the new
  connection takes the place of the first connection to the same target, or goes to the end.
\<close>

definition connections_with :: "string \<Rightarrow> connection \<Rightarrow> connection list \<Rightarrow> connection list" where
  "connections_with targetId newConnection conns =
     (case findIndex (\<lambda>conn. c_targetId conn = targetId) conns of
        Some existingConnectionIndex \<Rightarrow>
          take existingConnectionIndex conns @ [newConnection]
            @ drop (Suc existingConnectionIndex) conns
      | None \<Rightarrow> conns @ [newConnection])"

definition addConnection ::
  "string \<Rightarrow> string \<Rightarrow> connection_type \<Rightarrow> real \<Rightarrow> string option \<Rightarrow> 'st app \<Rightarrow> 'st app" where
  "addConnection sourceId targetId type strength description app =
     app\<lparr>state_memories :=
       map (\<lambda>memory.
              if m_id memory = sourceId then
                memory\<lparr>m_connections :=
                  connections_with targetId
                    \<lparr>c_type = type, c_targetId = targetId, c_strength = strength,
                     c_description = description\<rparr>
                    (m_connections memory)\<rparr>
              else memory)
         (state_memories app)\<rparr>"

definition removeConnection :: "string \<Rightarrow> string \<Rightarrow> 'st app \<Rightarrow> 'st app" where
  "removeConnection sourceId targetId app =
     app\<lparr>state_memories :=
       map (\<lambda>memory.
              if m_id memory = sourceId then
                memory\<lparr>m_connections :=
                  filter (\<lambda>conn. c_targetId conn \<noteq> targetId) (m_connections memory)\<rparr>
              else memory)
         (state_memories app)\<rparr>"

subsection \<open>\<open>getRelatedMemories\<close>\<close>

text \<open>
  The two \<open>forEach\<close> traversals that fill the Set \<open>relatedIds\<close> and the Map \<open>relationStrengths\<close>:
  first the target's own connections, then every connection of every memory that points at
  the target.
\<close>

type_synonym related = "string list \<times> (string \<times> real) list"

definition collect_outgoing :: "connection list \<Rightarrow> related \<Rightarrow> related" where
  "collect_outgoing conns acc =
     fold (\<lambda>conn (relatedIds, relationStrengths).
             (Set_add (c_targetId conn) relatedIds,
              Map_set (c_targetId conn) (c_strength conn) relationStrengths))
       conns acc"

definition collect_incoming :: "string \<Rightarrow> Memory list \<Rightarrow> related \<Rightarrow> related" where
  "collect_incoming ident mems acc =
     fold (\<lambda>memory.
             fold (\<lambda>conn (relatedIds, relationStrengths).
                     if c_targetId conn = ident then
                       (Set_add (m_id memory) relatedIds,
                        Map_set (m_id memory)
                          (max (c_strength conn)
                             (or_number (Map_get relationStrengths (m_id memory)) 0))
                          relationStrengths)
                     else (relatedIds, relationStrengths))
               (m_connections memory))
       mems acc"

text \<open>The strength pairs \<open>{ memory, strength }\<close> before sorting (\<open>null\<close> entries dropped).\<close>

definition relatedWithStrength ::
  "Memory list \<Rightarrow> (string \<times> match) list \<Rightarrow> related \<Rightarrow> (Memory \<times> real) list" where
  "relatedWithStrength mems semanticMemories rel =
     List.map_filter
       (\<lambda>relatedId.
          case find (\<lambda>m. m_id m = relatedId) mems of
            None \<Rightarrow> None
          | Some memory \<Rightarrow>
              (let explicitStrength = or_number (Map_get (snd rel) relatedId) 0;
                   semanticStrength =
                     (case Map_get semanticMemories relatedId of
                        Some semanticMatch \<Rightarrow> r_similarity semanticMatch
                      | None \<Rightarrow> 0);
                   combinedStrength = max explicitStrength semanticStrength
               in Some (memory, combinedStrength)))
       (fst rel)"

definition semanticOnly :: "(string \<times> match) list \<Rightarrow> string list \<Rightarrow> Memory list" where
  "semanticOnly semanticMemories relatedIds =
     map (\<lambda>(ident, m). r_memory m)
       (filter (\<lambda>(ident, m). ident \<notin> set relatedIds) semanticMemories)"

definition getRelatedMemories :: "'st env \<Rightarrow> string \<Rightarrow> 'st app \<Rightarrow> error + Memory list" where
  "getRelatedMemories env ident app =
     (case find (\<lambda>m. m_id m = ident) (state_memories app) of
        None \<Rightarrow> Inr []
      | Some target \<Rightarrow>
          (case findSimilarMemories env (m_content target) default_limit default_minSimilarity
                  (vectorStore app) of
             Inl e \<Rightarrow> Inl e
           | Inr similarMemories \<Rightarrow>
               (let semanticMemories =
                      Map_new (map (\<lambda>m. (m_id (r_memory m), m)) similarMemories);
                    rel = collect_incoming ident (state_memories app)
                            (collect_outgoing (m_connections target) ([], []));
                    allRelatedMemories =
                      map fst (js_sort (\<lambda>a b. snd b - snd a)
                                 (relatedWithStrength (state_memories app) semanticMemories rel))
                in Inr (allRelatedMemories @ semanticOnly semanticMemories (fst rel)))))"

section \<open>Extraction service (services/memory.ts)\<close>

text \<open>
  What \<open>JSON.parse(response).memories\<close> holds when the response has the requested structure.
  \<open>confidence\<close>, \<open>metadata\<close> and \<open>metadata.tags\<close> may be missing: the code supplies defaults
  for them.
\<close>

record raw_connection =
  rc_type :: connection_type
  rc_targetContent :: string
  rc_strength :: real
  rc_description :: "string option"

record raw_memory =
  rm_type :: memory_type
  rm_content :: string
  rm_confidence :: "real option"
  rm_connections :: "raw_connection list"
  rm_metadata :: "metadata option"

text \<open>
  The collaborators of the service: the language-model call, \<open>JSON.parse\<close> followed by the
  property reads on its result (an exception for a response that is not JSON or has another
  structure), and the \<open>n\<close>-th results of \<open>crypto.randomUUID()\<close> and \<open>Date.now()\<close> within one
  call of \<open>extractMemories\<close>.
\<close>

record service =
  callOpenRouter :: "string \<Rightarrow> error + string"
  parse_memories :: "string \<Rightarrow> error + raw_memory list"
  randomUUID :: "nat \<Rightarrow> string"
  Date_now :: "nat \<Rightarrow> int"

text \<open>\<open>Omit<Memory, 'id' | 'timestamp'>\<close>: an element of the array \<open>memories\<close>.\<close>

record candidate =
  cand_type :: memory_type
  cand_content :: string
  cand_confidence :: real
  cand_source :: string
  cand_connections :: "connection list"
  cand_metadata :: metadata

text \<open>The properties a candidate object has, seen as a \<open>Partial<Memory>\<close>.\<close>

definition asPartial :: "candidate \<Rightarrow> PartialMemory" where
  "asPartial c =
     \<lparr>p_id = None,
      p_type = cand_type c,
      p_content = cand_content c,
      p_source = Some (cand_source c),
      p_timestamp = None,
      p_confidence = Some (cand_confidence c),
      p_connections = Some (cand_connections c),
      p_metadata = Some (cand_metadata c)\<rparr>"

text \<open>\<open>{ ...memory, id: crypto.randomUUID(), timestamp: Date.now() }\<close>\<close>

definition fullMemory :: "candidate \<Rightarrow> string \<Rightarrow> int \<Rightarrow> Memory" where
  "fullMemory c uuid now =
     \<lparr>m_id = uuid,
      m_type = cand_type c,
      m_content = cand_content c,
      m_source = Some (cand_source c),
      m_timestamp = now,
      m_confidence = cand_confidence c,
      m_connections = cand_connections c,
      m_metadata = cand_metadata c\<rparr>"

definition toUpperCase_type :: "memory_type \<Rightarrow> string" where
  "toUpperCase_type t =
     (case t of Fact \<Rightarrow> ''FACT'' | Concept \<Rightarrow> ''CONCEPT'' | Relationship \<Rightarrow> ''RELATIONSHIP'')"

fun join :: "string \<Rightarrow> string list \<Rightarrow> string" where
  "join sep [] = []"
| "join sep [x] = x"
| "join sep (x # y # ys) = x @ sep @ join sep (y # ys)"

definition newline :: string where
  "newline = [CHR 0x0A]"

definition make_prompt :: "Memory list \<Rightarrow> string \<Rightarrow> string" where
  "make_prompt relevantMemories conversation =
     (let memoryContext =
            join newline
              (map (\<lambda>m. toUpperCase_type (m_type m) @ '': '' @ m_content m
                          @ '' (ID: '' @ m_id m @ '')'')
                 relevantMemories)
      in ''Analyze this conversation and extract memories. Use existing memories to identify connections and enhance understanding.''
         @ newline @ newline @ ''Existing Memories:'' @ newline @ memoryContext
         @ newline @ newline @ ''New Conversation:'' @ newline @ conversation)"

definition resolve_connections :: "Memory list \<Rightarrow> raw_connection list \<Rightarrow> connection list" where
  "resolve_connections relevantMemories conns =
     List.map_filter
       (\<lambda>conn.
          case find (\<lambda>m. includes_str (toLowerCase (m_content m))
                              (toLowerCase (rc_targetContent conn)))
                 relevantMemories of
            None \<Rightarrow> None
          | Some targetMemory \<Rightarrow>
              Some \<lparr>c_type = rc_type conn, c_targetId = m_id targetMemory,
                    c_strength = rc_strength conn, c_description = rc_description conn\<rparr>)
       conns"

definition toCandidate :: "Memory list \<Rightarrow> string \<Rightarrow> int \<Rightarrow> raw_memory \<Rightarrow> candidate" where
  "toCandidate relevantMemories conversation now memory =
     \<lparr>cand_type = rm_type memory,
      cand_content = rm_content memory,
      cand_confidence = or_number (rm_confidence memory) 1,
      cand_source = take 100 conversation @ ''...'',
      cand_connections = resolve_connections relevantMemories (rm_connections memory),
      cand_metadata =
        (case rm_metadata memory of
           None \<Rightarrow>
             \<lparr>md_workspace = None, md_thread = None, md_context = None,
              md_tags = Some [], md_timestamp = Some now\<rparr>
         | Some md \<Rightarrow>
             md\<lparr>md_timestamp := Some now, md_tags := Some (or_array (md_tags md) [])\<rparr>)\<rparr>"

text \<open>
  The loop \<open>for (const memory of memories)\<close>; \<open>i\<close> and \<open>t\<close> count the calls of
  \<open>crypto.randomUUID()\<close> and \<open>Date.now()\<close> made so far. An exception of
  \<open>vectorStore.addMemory\<close> leaves the loop.
\<close>

fun store_memories ::
  "service \<Rightarrow> 'st env \<Rightarrow> nat \<Rightarrow> nat \<Rightarrow> candidate list \<Rightarrow> 'st VectorStore
     \<Rightarrow> (error + unit) \<times> 'st VectorStore" where
  "store_memories svc env i t [] vs = (Inr (), vs)"
| "store_memories svc env i t (memory # rest) vs =
     (case VectorStore_addMemory env
             (fullMemory memory (randomUUID svc i) (Date_now svc t)) vs of
        (Inl e, vs') \<Rightarrow> (Inl e, vs')
      | (Inr u, vs') \<Rightarrow> store_memories svc env (Suc i) (Suc t) rest vs')"

text \<open>
  \<open>extractMemories(conversation, existingMemories = [])\<close>. Both \<open>catch\<close> blocks log and
  return \<open>[]\<close>; the inner one also catches what the storing loop throws.
\<close>

definition extractMemories ::
  "service \<Rightarrow> 'st env \<Rightarrow> string \<Rightarrow> Memory list \<Rightarrow> 'st VectorStore
     \<Rightarrow> (error + PartialMemory list) \<times> 'st VectorStore" where
  "extractMemories svc env conversation existingMemories vs =
     (case findSimilarMemories env conversation 5 default_minSimilarity vs of
        Inl e \<Rightarrow> (Inr [], vs)
      | Inr similarMemories \<Rightarrow>
          (let relevantMemories = existingMemories @ map r_memory similarMemories;
               prompt = make_prompt relevantMemories conversation
           in case callOpenRouter svc prompt of
                Inl e \<Rightarrow> (Inr [], vs)
              | Inr response \<Rightarrow>
                  (case parse_memories svc response of
                     Inl e \<Rightarrow> (Inr [], vs)
                   | Inr parsed \<Rightarrow>
                       (let mems =
                              map (\<lambda>(k, memory).
                                     toCandidate relevantMemories conversation (Date_now svc k)
                                       memory)
                                (zip [0..<length parsed] parsed)
                        in case store_memories svc env 0 (length parsed) mems vs of
                             (Inl e, vs') \<Rightarrow> (Inr [], vs')
                           | (Inr u, vs') \<Rightarrow> (Inr (map asPartial mems), vs')))))"

section \<open>Example inputs\<close>

text \<open>
  An embedding provider that fails on the empty text and returns unit vectors otherwise, a
  storage that holds the last collection written and refuses collections longer than a quota,
  and a storage that refuses every read and write.
\<close>

definition demo_embedding :: "string \<Rightarrow> error + real list" where
  "demo_embedding text =
     (if text = [] then Inl EmbeddingError
      else if text = ''cat'' then Inr [1, 0]
      else if text = ''dog'' then Inr [0, 1]
      else if text = ''kitten'' then Inr [4 / 5, 3 / 5]
      else Inr [3 / 5, 4 / 5])"

definition demo_env :: "nat \<Rightarrow> (StoredMemory list option) env" where
  "demo_env quota =
     \<lparr>generateEmbedding = demo_embedding,
      setItem = (\<lambda>st ms. if length ms > quota then Inl StorageError else Inr (Some ms)),
      getItem = (\<lambda>st. Inr st)\<rparr>"

definition broken_storage_env :: "(StoredMemory list option) env" where
  "broken_storage_env =
     \<lparr>generateEmbedding = demo_embedding,
      setItem = (\<lambda>st ms. Inl StorageError),
      getItem = (\<lambda>st. Inl StorageError)\<rparr>"

definition demo_memory :: "string \<Rightarrow> string \<Rightarrow> connection list \<Rightarrow> Memory" where
  "demo_memory ident text conns =
     \<lparr>m_id = ident, m_type = Fact, m_content = text, m_source = Some ''chat'',
      m_timestamp = 1000, m_confidence = 1 / 2, m_connections = conns,
      m_metadata = \<lparr>md_workspace = None, md_thread = None, md_context = None,
                    md_tags = Some [], md_timestamp = None\<rparr>\<rparr>"

definition demo_stored :: "string \<Rightarrow> string \<Rightarrow> real list \<Rightarrow> StoredMemory" where
  "demo_stored ident text v = toStoredMemory (demo_memory ident text []) v"

definition demo_store :: "StoredMemory list option VectorStore" where
  "demo_store = \<lparr>memories = [demo_stored ''a'' ''cat'' [1, 0]], storage = None\<rparr>"

definition demo_partial :: "real option \<Rightarrow> string \<Rightarrow> PartialMemory" where
  "demo_partial conf text =
     \<lparr>p_id = Some ''a'', p_type = Fact, p_content = text, p_source = Some ''chat'',
      p_timestamp = Some 2000, p_confidence = conf, p_connections = None,
      p_metadata = None\<rparr>"

definition demo_app :: "StoredMemory list option app" where
  "demo_app = \<lparr>state_memories = [demo_memory ''a'' ''cat'' []], vectorStore = demo_store\<rparr>"

definition demo_edge :: "string \<Rightarrow> real \<Rightarrow> connection" where
  "demo_edge t s = \<lparr>c_type = Related_to, c_targetId = t, c_strength = s, c_description = None\<rparr>"

definition graph_app :: "StoredMemory list option app" where
  "graph_app =
     \<lparr>state_memories =
        [demo_memory ''A'' ''cat'' [demo_edge ''C'' (1 / 2)], demo_memory ''B'' ''dog'' []],
      vectorStore = \<lparr>memories = [], storage = None\<rparr>\<rparr>"

definition three_store :: "StoredMemory list option VectorStore" where
  "three_store =
     \<lparr>memories = [demo_stored ''a'' ''cat'' [1, 0], demo_stored ''b'' ''kitten'' [4 / 5, 3 / 5],
                  demo_stored ''c'' ''dog'' [0, 1], demo_stored ''d'' ''cat'' [1, 0]],
      storage = None\<rparr>"

definition related_app :: "StoredMemory list option app" where
  "related_app =
     \<lparr>state_memories =
        [demo_memory ''A'' ''cat'' [demo_edge ''B'' (9 / 10)],
         demo_memory ''B'' ''dog'' [],
         demo_memory ''C'' ''dog'' [demo_edge ''A'' (1 / 2)],
         demo_memory ''K'' ''kitten'' [demo_edge ''A'' (1 / 5)]],
      vectorStore =
        \<lparr>memories =
           [demo_stored ''A'' ''cat'' [1, 0], demo_stored ''K'' ''kitten'' [4 / 5, 3 / 5],
            demo_stored ''B'' ''dog'' [0, 1], demo_stored ''D'' ''cat'' [1, 0]],
         storage = None\<rparr>\<rparr>"

definition duplicate_app :: "StoredMemory list option app" where
  "duplicate_app =
     \<lparr>state_memories =
        [demo_memory ''A'' ''cat'' [demo_edge ''B'' (9 / 10), demo_edge ''B'' (3 / 10)],
         demo_memory ''B'' ''dog'' [],
         demo_memory ''C'' ''dog'' [demo_edge ''A'' (1 / 2)]],
      vectorStore = \<lparr>memories = [], storage = None\<rparr>\<rparr>"

text \<open>
  A language model that answers with two memories, each proposing a connection to the memory
  about the cat and one to a memory that does not exist; ids \<open>u\<close>, \<open>uu\<close>, ... and a clock
  that advances by one millisecond per reading.
\<close>

text \<open>A store whose durable copy is behind its collection.\<close>

definition two_store :: "StoredMemory list option VectorStore" where
  "two_store =
     \<lparr>memories = [demo_stored ''a'' ''cat'' [1, 0], demo_stored ''b'' ''dog'' [0, 1]],
      storage = Some [demo_stored ''a'' ''cat'' [1, 0]]\<rparr>"

text \<open>
  A target with a connection to an id that is in the vector store only, not among the
  memories of the store.
\<close>

definition dangling_app :: "StoredMemory list option app" where
  "dangling_app =
     \<lparr>state_memories = [demo_memory ''A'' ''cat'' [demo_edge ''Z'' (9 / 10)]],
      vectorStore = \<lparr>memories = [demo_stored ''Z'' ''cat'' [1, 0]], storage = None\<rparr>\<rparr>"

definition demo_raw :: "string \<Rightarrow> real option \<Rightarrow> raw_memory" where
  "demo_raw text conf =
     \<lparr>rm_type = Fact, rm_content = text, rm_confidence = conf,
      rm_connections =
        [\<lparr>rc_type = Related_to, rc_targetContent = ''CAT'', rc_strength = 1 / 2,
          rc_description = None\<rparr>,
         \<lparr>rc_type = Causes, rc_targetContent = ''bird'', rc_strength = 1 / 4,
          rc_description = None\<rparr>],
      rm_metadata = None\<rparr>"

definition demo_service :: service where
  "demo_service =
     \<lparr>callOpenRouter = (\<lambda>prompt. Inr ''json''),
      parse_memories =
        (\<lambda>response. if response = ''json''
                     then Inr [demo_raw ''kitten'' (Some (4 / 5)), demo_raw ''dog'' None]
                     else Inl ExtractionParseError),
      randomUUID = (\<lambda>n. replicate (Suc n) CHR ''u''),
      Date_now = (\<lambda>n. 1000 + int n)\<rparr>"

definition demo_returned :: "string \<Rightarrow> real \<Rightarrow> int \<Rightarrow> PartialMemory" where
  "demo_returned text conf now =
     \<lparr>p_id = None, p_type = Fact, p_content = text, p_source = Some ''my cat...'',
      p_timestamp = None, p_confidence = Some conf,
      p_connections = Some [demo_edge ''a'' (1 / 2)],
      p_metadata = Some \<lparr>md_workspace = None, md_thread = None, md_context = None,
                         md_tags = Some [], md_timestamp = Some now\<rparr>\<rparr>"

section \<open>Notions of the specification\<close>

text \<open>
  The collection after an upsert of \<open>sm\<close>: the record with the same id replaced in place, or
  \<open>sm\<close> added at the end.
\<close>

definition upserted :: "StoredMemory \<Rightarrow> StoredMemory list \<Rightarrow> StoredMemory list" where
  "upserted sm ms =
     (case findIndex (\<lambda>m. s_id m = s_id sm) ms of
        Some index \<Rightarrow> ms[index := sm]
      | None \<Rightarrow> ms @ [sm])"

text \<open>
  Every stored vector, in insertion order, with its similarity to the query text: the
  candidates among which \<open>findSimilar\<close> chooses.
\<close>

definition all_matches :: "'st env \<Rightarrow> string \<Rightarrow> 'st VectorStore \<Rightarrow> match list" where
  "all_matches env content vs =
     (case generateEmbedding env content of
        Inl e \<Rightarrow> []
      | Inr queryEmbedding \<Rightarrow>
          List.map_filter
            (\<lambda>storedMemory.
               case cosineSimilarity queryEmbedding (s_embedding storedMemory) of
                 Inl e \<Rightarrow> None
               | Inr similarity \<Rightarrow>
                   Some \<lparr>r_memory = toMemory storedMemory, r_similarity = similarity\<rparr>)
            (memories vs))"

definition to_match :: "StoredMemory \<times> real \<Rightarrow> match" where
  "to_match p = \<lparr>r_memory = toMemory (fst p), r_similarity = snd p\<rparr>"

text \<open>Filter by the floor, sort by descending similarity (stable), cut at the limit.\<close>

definition ranked :: "int \<Rightarrow> real \<Rightarrow> match list \<Rightarrow> match list" where
  "ranked limit minSimilarity ms =
     slice0 limit (sort_key (\<lambda>r. - r_similarity r)
                     (filter (\<lambda>r. minSimilarity \<le> r_similarity r) ms))"

text \<open>
  The edges that \<open>getRelatedMemories\<close> reads, as (candidate id, strength) pairs in the order
  of the two traversals, and one step of each traversal on the pair (\<open>relatedIds\<close>, \<open>relationStrengths\<close>).
\<close>

definition outgoing_edges :: "Memory \<Rightarrow> (string \<times> real) list" where
  "outgoing_edges target = map (\<lambda>c. (c_targetId c, c_strength c)) (m_connections target)"

definition incoming_edges :: "string \<Rightarrow> Memory list \<Rightarrow> (string \<times> real) list" where
  "incoming_edges ident mems =
     concat (map (\<lambda>m. map (\<lambda>c. (m_id m, c_strength c))
                        (filter (\<lambda>c. c_targetId c = ident) (m_connections m)))
               mems)"

definition step_out :: "string \<times> real \<Rightarrow> related \<Rightarrow> related" where
  "step_out e rel = (Set_add (fst e) (fst rel), Map_set (fst e) (snd e) (snd rel))"

definition step_in :: "string \<times> real \<Rightarrow> related \<Rightarrow> related" where
  "step_in e rel =
     (Set_add (fst e) (fst rel),
      Map_set (fst e) (max (snd e) (or_number (Map_get (snd rel) (fst e)) 0)) (snd rel))"

text \<open>\<open>relatedIds\<close> lists the keys of \<open>relationStrengths\<close>, each once.\<close>

definition wf_related :: "related \<Rightarrow> bool" where
  "wf_related rel \<longleftrightarrow> fst rel = map fst (snd rel) \<and> distinct (fst rel)"

text \<open>The state of \<open>relatedIds\<close> and \<open>relationStrengths\<close> after both traversals, and the Map \<open>semanticMemories\<close>.\<close>

definition related_of :: "string \<Rightarrow> Memory \<Rightarrow> Memory list \<Rightarrow> related" where
  "related_of ident target mems =
     collect_incoming ident mems (collect_outgoing (m_connections target) ([], []))"

definition semantic_map :: "match list \<Rightarrow> (string \<times> match) list" where
  "semantic_map sims = Map_new (map (\<lambda>m. (m_id (r_memory m), m)) sims)"

text \<open>
  The candidates with an explicit edge: the targets of the target memory's connections and
  the memories with a connection to the target.
\<close>

definition explicit_ids :: "string \<Rightarrow> Memory \<Rightarrow> Memory list \<Rightarrow> string set" where
  "explicit_ids ident target mems =
     c_targetId ` set (m_connections target)
     \<union> {m_id m |m. m \<in> set mems \<and> (\<exists>c \<in> set (m_connections m). c_targetId c = ident)}"

text \<open>
  Explicit strength of a candidate: the maximum over the strengths of the target's edges to
  the candidate and of the candidate's edges to the target. Semantic strength: the similarity
  that the \<open>findSimilar\<close> query reports for the candidate, 0 when it reports none. Combined
  strength: the larger of the two.
\<close>

definition outgoing_strengths :: "Memory \<Rightarrow> string \<Rightarrow> real list" where
  "outgoing_strengths target k =
     map c_strength (filter (\<lambda>c. c_targetId c = k) (m_connections target))"

definition incoming_strengths :: "string \<Rightarrow> Memory list \<Rightarrow> string \<Rightarrow> real list" where
  "incoming_strengths ident mems k =
     concat (map (\<lambda>m. map c_strength (filter (\<lambda>c. c_targetId c = ident) (m_connections m)))
               (filter (\<lambda>m. m_id m = k) mems))"

definition explicitStrength :: "string \<Rightarrow> Memory \<Rightarrow> Memory list \<Rightarrow> string \<Rightarrow> real" where
  "explicitStrength ident target mems k =
     Max (set (outgoing_strengths target k @ incoming_strengths ident mems k))"

definition semanticStrength :: "match list \<Rightarrow> string \<Rightarrow> real" where
  "semanticStrength sims k =
     (case find (\<lambda>r. m_id (r_memory r) = k) sims of
        Some r \<Rightarrow> r_similarity r
      | None \<Rightarrow> 0)"

definition combinedStrength ::
  "string \<Rightarrow> Memory \<Rightarrow> Memory list \<Rightarrow> match list \<Rightarrow> string \<Rightarrow> real" where
  "combinedStrength ident target mems sims k =
     max (explicitStrength ident target mems k) (semanticStrength sims k)"

text \<open>The array \<open>memories\<close> that \<open>extractMemories\<close> builds from the parsed response.\<close>

definition candidates :: "service \<Rightarrow> Memory list \<Rightarrow> string \<Rightarrow> raw_memory list \<Rightarrow> candidate list" where
  "candidates svc relevantMemories conversation parsed =
     map (\<lambda>(k, memory). toCandidate relevantMemories conversation (Date_now svc k) memory)
       (zip [0..<length parsed] parsed)"

section \<open>The similarity function\<close>

text \<open>
  In exact arithmetic the traversal computes the dot product and the two squared norms. The
  lemmas of this section serve the similarity search below; they say nothing about what the
  double-precision arithmetic of the code returns where a product overflows or underflows.
\<close>

lemma cosineSimilarity_loop:
  "n \<le> length a \<Longrightarrow> n \<le> length b \<Longrightarrow>
   fold (\<lambda>i (dotProduct, normA, normB).
           (dotProduct + a ! i * b ! i, normA + a ! i * a ! i, normB + b ! i * b ! i))
        [0..<n] (0, 0, 0)
   = (dot (take n a) (take n b),
      sum_list (map (\<lambda>x. x * x) (take n a)),
      sum_list (map (\<lambda>x. x * x) (take n b)))"
proof (induction n)
  case 0
  show ?case by (simp add: dot_def)
next
  case (Suc n)
  then show ?case
    by (simp add: dot_def take_Suc_conv_app_nth)
qed

lemma cosineSimilarity_eq:
  "cosineSimilarity a b =
     (if length a \<noteq> length b then Inl DimensionMismatch
      else if magnitude a = 0 \<or> magnitude b = 0 then Inr 0
      else Inr (dot a b / (magnitude a * magnitude b)))"
  by (simp add: cosineSimilarity_def cosineSimilarity_loop magnitude_def)

lemma cosineSimilarity_defined: "length a = length b \<Longrightarrow> \<exists>s. cosineSimilarity a b = Inr s"
  by (simp add: cosineSimilarity_eq)

lemma cosineSimilarity_mismatch:
  "length a \<noteq> length b \<Longrightarrow> cosineSimilarity a b = Inl DimensionMismatch"
  by (simp add: cosineSimilarity_eq)

section \<open>Embedding failures\<close>

text \<open>
  Claim C2, as stated: when embedding the query fails, \<open>findSimilarMemories\<close> lets the error
  reach the caller. It does not: with a provider that fails on the query, the call returns the
  empty list.
\<close>

theorem findSimilar_embedding_failure_counterexample:
  "generateEmbedding (demo_env 10) [] = Inl EmbeddingError
   \<and> findSimilarMemories (demo_env 10) [] 5 (7 / 10) demo_store = Inr []"
  by (simp add: findSimilarMemories_def demo_env_def demo_embedding_def)

text \<open>
  Claim C2, amended: when embedding the query fails, \<open>findSimilarMemories\<close> catches the error
  and returns the empty list, for every limit, similarity floor and store.
\<close>

theorem findSimilar_embedding_failure_caught:
  "generateEmbedding env content = Inl e \<Longrightarrow>
   findSimilarMemories env content limit minSimilarity vs = Inr []"
  by (simp add: findSimilarMemories_def)

theorem findSimilar_embedding_failure_caught_witness:
  "generateEmbedding (demo_env 10) [] = Inl EmbeddingError
   \<and> findSimilarMemories (demo_env 10) [] 5 0 demo_store = Inr []"
  using findSimilar_embedding_failure_caught [of "demo_env 10" "[]" EmbeddingError 5 0 demo_store]
  by (simp add: demo_env_def demo_embedding_def)

lemma newMemory_content: "m_content (newMemory uuid now memory) = p_content memory"
  by (simp add: newMemory_def)

text \<open>
  Claim C3. When embedding the content fails, \<open>VectorStore.addMemory\<close> passes the error on
  and leaves the vector store as it was (collection and storage), and the memory store's
  \<open>addMemory\<close> passes it on and leaves both the memory list and the vector store as they were:
  nothing is added, replaced or removed on either side.
\<close>

theorem addMemory_embedding_failure_atomic:
  "generateEmbedding env text = Inl e \<Longrightarrow>
   (m_content memory = text \<longrightarrow> VectorStore_addMemory env memory vs = (Inl e, vs))
   \<and> (p_content partial = text \<longrightarrow> addMemory env uuid now partial app = (Inl e, app))"
  by (simp add: VectorStore_addMemory_def addMemory_def newMemory_content)

theorem addMemory_embedding_failure_atomic_witness:
  "generateEmbedding (demo_env 10) [] = Inl EmbeddingError
   \<and> VectorStore_addMemory (demo_env 10) (demo_memory ''a'' [] []) demo_store
       = (Inl EmbeddingError, demo_store)
   \<and> addMemory (demo_env 10) ''u'' 5 (demo_partial None []) demo_app
       = (Inl EmbeddingError, demo_app)"
  using addMemory_embedding_failure_atomic
          [of "demo_env 10" "[]" EmbeddingError "demo_memory ''a'' [] []" demo_store
              "demo_partial None []" "''u''" 5 demo_app]
  by (simp add: demo_env_def demo_embedding_def demo_memory_def demo_partial_def)

section \<open>Storage failures\<close>

text \<open>
  Claim C8, as stated: a failure writing the collection to durable storage reaches the caller
  of the mutating operation. It does not: on a storage that refuses every write,
  \<open>deleteMemory\<close> and \<open>clear\<close> return normally.
\<close>

theorem write_failure_counterexample:
  "setItem broken_storage_env (storage demo_store) [] = Inl StorageError
   \<and> deleteMemory broken_storage_env ''a'' demo_store
       = (Inr (), \<lparr>memories = [], storage = None\<rparr>)
   \<and> clear broken_storage_env demo_store = (Inr (), \<lparr>memories = [], storage = None\<rparr>)"
  by (simp add: deleteMemory_def clear_def saveToStorage_def broken_storage_env_def
      demo_store_def demo_stored_def toStoredMemory_def demo_memory_def)

text \<open>
  Claim C8, amended: each mutating operation catches the failure of its own write. If the
  storage refuses the collection that \<open>deleteMemory\<close>, \<open>clear\<close> or (once the embedding has
  succeeded) \<open>addMemory\<close> is about to write, whatever it does with any other collection, the
  operation returns normally with the collection updated in memory and the storage left as it
  was. Separately, a failure reading the storage when the store is constructed gives the empty
  collection.
\<close>

theorem write_failure_swallowed:
  "(setItem env (storage vs) (filter (\<lambda>m. s_id m \<noteq> ident) (memories vs)) = Inl e1 \<longrightarrow>
      deleteMemory env ident vs
        = (Inr (), vs\<lparr>memories := filter (\<lambda>m. s_id m \<noteq> ident) (memories vs)\<rparr>))
   \<and> (setItem env (storage vs) [] = Inl e2 \<longrightarrow>
        clear env vs = (Inr (), vs\<lparr>memories := []\<rparr>))
   \<and> (generateEmbedding env (m_content memory) = Inr embedding
        \<and> setItem env (storage vs) (upserted (toStoredMemory memory embedding) (memories vs))
            = Inl e3 \<longrightarrow>
        VectorStore_addMemory env memory vs
          = (Inr (), vs\<lparr>memories := upserted (toStoredMemory memory embedding) (memories vs)\<rparr>))
   \<and> (getItem env st = Inl e4 \<longrightarrow>
        new_VectorStore env st = (Inr (), \<lparr>memories = [], storage = st\<rparr>))"
  by (simp add: deleteMemory_def clear_def VectorStore_addMemory_def saveToStorage_def
      new_VectorStore_def loadFromStorage_def upserted_def toStoredMemory_def Let_def
      split: option.splits)

theorem write_failure_swallowed_witness:
  "setItem (demo_env 0) (storage two_store)
       (filter (\<lambda>m. s_id m \<noteq> ''a'') (memories two_store)) = Inl StorageError
   \<and> deleteMemory (demo_env 0) ''a'' two_store
       = (Inr (), \<lparr>memories = [demo_stored ''b'' ''dog'' [0, 1]],
                   storage = Some [demo_stored ''a'' ''cat'' [1, 0]]\<rparr>)
   \<and> setItem broken_storage_env (storage two_store) [] = Inl StorageError
   \<and> clear broken_storage_env two_store
       = (Inr (), \<lparr>memories = [], storage = Some [demo_stored ''a'' ''cat'' [1, 0]]\<rparr>)
   \<and> generateEmbedding (demo_env 2) (m_content (demo_memory ''c'' ''kitten'' []))
       = Inr [4 / 5, 3 / 5]
   \<and> setItem (demo_env 2) (storage two_store)
         (upserted (toStoredMemory (demo_memory ''c'' ''kitten'' []) [4 / 5, 3 / 5])
            (memories two_store)) = Inl StorageError
   \<and> VectorStore_addMemory (demo_env 2) (demo_memory ''c'' ''kitten'' []) two_store
       = (Inr (),
          \<lparr>memories = [demo_stored ''a'' ''cat'' [1, 0], demo_stored ''b'' ''dog'' [0, 1],
                       demo_stored ''c'' ''kitten'' [4 / 5, 3 / 5]],
           storage = Some [demo_stored ''a'' ''cat'' [1, 0]]\<rparr>)
   \<and> getItem broken_storage_env None = Inl StorageError
   \<and> new_VectorStore broken_storage_env None = (Inr (), \<lparr>memories = [], storage = None\<rparr>)"
  using write_failure_swallowed
          [of "demo_env 0" two_store "''a''" StorageError StorageError
              "demo_memory ''c'' ''kitten'' []" "[4 / 5, 3 / 5]" StorageError None StorageError]
        write_failure_swallowed
          [of broken_storage_env two_store "''a''" StorageError StorageError
              "demo_memory ''c'' ''kitten'' []" "[4 / 5, 3 / 5]" StorageError None StorageError]
        write_failure_swallowed
          [of "demo_env 2" two_store "''a''" StorageError StorageError
              "demo_memory ''c'' ''kitten'' []" "[4 / 5, 3 / 5]" StorageError None StorageError]
  by (simp add: broken_storage_env_def demo_env_def two_store_def demo_stored_def
      toStoredMemory_def demo_memory_def demo_embedding_def upserted_def)

section \<open>Confidence defaults\<close>

text \<open>
  Claim C9 at the input where the code departs from it: a memory handed to \<open>addMemory\<close>, and
  a memory in the language model's response, with confidence 0. In both paths
  \<open>confidence || 1.0\<close> replaces the supplied 0 by 1.
\<close>

theorem confidence_zero_replaced:
  "m_confidence (newMemory ''u'' 5 (demo_partial (Some 0) ''cat'')) = 1
   \<and> cand_confidence
        (toCandidate [] ''hello'' 5
           \<lparr>rm_type = Fact, rm_content = ''cat'', rm_confidence = Some 0,
            rm_connections = [], rm_metadata = None\<rparr>) = 1"
  by (simp add: newMemory_def demo_partial_def or_number_def toCandidate_def)

section \<open>Connections\<close>

lemma filter_connections_with:
  "P new \<Longrightarrow> (\<And>c. P c = (c_targetId c = t)) \<Longrightarrow>
   filter P (connections_with t new xs) = new # tl (filter P xs)"
  unfolding connections_with_def
  by (induction xs) (auto split: option.splits)

lemma distinct_filter_key:
  "distinct (map f xs) \<Longrightarrow> length (filter (\<lambda>x. f x = k) xs) \<le> Suc 0"
proof (induction xs)
  case Nil
  show ?case by simp
next
  case (Cons a xs)
  show ?case
  proof (cases "f a = k")
    case True
    with Cons.prems have "k \<notin> f ` set xs" by simp
    then have "\<forall>x \<in> set xs. f x \<noteq> k" by blast
    then have "filter (\<lambda>x. f x = k) xs = []" by (simp add: filter_empty_conv)
    with True show ?thesis by simp
  next
    case False
    with Cons show ?thesis by simp
  qed
qed

lemma addConnection_ids:
  "map m_id (state_memories (addConnection A B t s d app)) = map m_id (state_memories app)"
  by (simp add: addConnection_def comp_def)

lemma addConnection_edges:
  assumes "m \<in> set (state_memories (addConnection A B t s d app))" and "m_id m = A"
  shows "\<exists>m0 \<in> set (state_memories app). m_id m0 = A \<and>
           m_connections m =
             connections_with B
               \<lparr>c_type = t, c_targetId = B, c_strength = s, c_description = d\<rparr>
               (m_connections m0)"
proof -
  from assms(1) obtain m0 where m0: "m0 \<in> set (state_memories app)"
    and m: "m = (if m_id m0 = A
                 then m0\<lparr>m_connections :=
                        connections_with B
                          \<lparr>c_type = t, c_targetId = B, c_strength = s, c_description = d\<rparr>
                          (m_connections m0)\<rparr>
                 else m0)"
    unfolding addConnection_def by auto
  show ?thesis
  proof (cases "m_id m0 = A")
    case True
    with m0 m show ?thesis by (intro bexI [of _ m0]) simp_all
  next
    case False
    with m assms(2) show ?thesis by simp
  qed
qed

text \<open>
  Claim C7. If every memory with id \<open>A\<close> has at most one connection per target, then after
  \<open>addConnection(A, B, type1, s1)\<close> followed by \<open>addConnection(A, B, type2, s2)\<close> the store
  holds the same memories, and the connections of \<open>A\<close> to \<open>B\<close> are exactly one connection, of
  type \<open>type2\<close> and strength \<open>s2\<close>.
\<close>

theorem addConnection_last_write_wins:
  assumes "\<forall>m \<in> set (state_memories app).
             m_id m = A \<longrightarrow> distinct (map c_targetId (m_connections m))"
  shows "map m_id (state_memories
                     (addConnection A B type2 s2 d2 (addConnection A B type1 s1 d1 app)))
           = map m_id (state_memories app)
         \<and> (\<forall>m \<in> set (state_memories
                      (addConnection A B type2 s2 d2 (addConnection A B type1 s1 d1 app))).
           m_id m = A \<longrightarrow>
           filter (\<lambda>c. c_targetId c = B) (m_connections m)
             = [\<lparr>c_type = type2, c_targetId = B, c_strength = s2, c_description = d2\<rparr>])"
proof (intro conjI ballI impI)
  show "map m_id (state_memories
                     (addConnection A B type2 s2 d2 (addConnection A B type1 s1 d1 app)))
           = map m_id (state_memories app)"
    by (simp only: addConnection_ids)
next
  fix m
  assume m: "m \<in> set (state_memories
                      (addConnection A B type2 s2 d2 (addConnection A B type1 s1 d1 app)))"
    and A: "m_id m = A"
  from addConnection_edges [OF m A] obtain m1
    where m1: "m1 \<in> set (state_memories (addConnection A B type1 s1 d1 app))" "m_id m1 = A"
      and e2: "m_connections m =
             connections_with B
               \<lparr>c_type = type2, c_targetId = B, c_strength = s2, c_description = d2\<rparr>
               (m_connections m1)"
    by blast
  from addConnection_edges [OF m1] obtain m0
    where m0: "m0 \<in> set (state_memories app)" "m_id m0 = A"
      and e1: "m_connections m1 =
             connections_with B
               \<lparr>c_type = type1, c_targetId = B, c_strength = s1, c_description = d1\<rparr>
               (m_connections m0)"
    by blast
  from m0 assms have "distinct (map c_targetId (m_connections m0))"
    by blast
  then have "length (filter (\<lambda>c. c_targetId c = B) (m_connections m0)) \<le> Suc 0"
    by (rule distinct_filter_key)
  then have one: "tl (filter (\<lambda>c. c_targetId c = B) (m_connections m0)) = []"
    by (cases "filter (\<lambda>c. c_targetId c = B) (m_connections m0)") auto
  show "filter (\<lambda>c. c_targetId c = B) (m_connections m)
          = [\<lparr>c_type = type2, c_targetId = B, c_strength = s2, c_description = d2\<rparr>]"
    by (simp add: e1 e2 filter_connections_with one)
qed

lemma graph_app_run:
  "map m_connections
     (state_memories
        (addConnection ''A'' ''B'' Causes (3 / 10) None
           (addConnection ''A'' ''B'' Related_to (8 / 10) None graph_app)))
   = [[demo_edge ''C'' (1 / 2),
       \<lparr>c_type = Causes, c_targetId = ''B'', c_strength = 3 / 10, c_description = None\<rparr>],
      []]"
  by (simp add: graph_app_def demo_memory_def demo_edge_def addConnection_def connections_with_def)

theorem addConnection_last_write_wins_witness:
  "distinct (map c_targetId (m_connections (demo_memory ''A'' ''cat'' [demo_edge ''C'' (1 / 2)])))
   \<and> map m_id (state_memories
                 (addConnection ''A'' ''B'' Causes (3 / 10) None
                    (addConnection ''A'' ''B'' Related_to (8 / 10) None graph_app)))
       = [''A'', ''B'']
   \<and> map m_connections
         (state_memories
            (addConnection ''A'' ''B'' Causes (3 / 10) None
               (addConnection ''A'' ''B'' Related_to (8 / 10) None graph_app)))
       = [[demo_edge ''C'' (1 / 2),
           \<lparr>c_type = Causes, c_targetId = ''B'', c_strength = 3 / 10, c_description = None\<rparr>],
          []]"
proof -
  have h: "\<forall>m \<in> set (state_memories graph_app).
      m_id m = ''A'' \<longrightarrow> distinct (map c_targetId (m_connections m))"
    by (simp add: graph_app_def demo_memory_def demo_edge_def)
  have ids: "map m_id (state_memories graph_app) = [''A'', ''B'']"
    by (simp add: graph_app_def demo_memory_def)
  note run = addConnection_last_write_wins
                 [OF h, of "''B''" Causes "3 / 10" None Related_to "8 / 10" None]
  show ?thesis
  proof (intro conjI)
    show "distinct (map c_targetId
            (m_connections (demo_memory ''A'' ''cat'' [demo_edge ''C'' (1 / 2)])))"
      by (simp add: demo_memory_def)
    show "map m_id (state_memories
                 (addConnection ''A'' ''B'' Causes (3 / 10) None
                    (addConnection ''A'' ''B'' Related_to (8 / 10) None graph_app)))
       = [''A'', ''B'']"
      by (simp only: conjunct1 [OF run] ids)
    show "map m_connections
         (state_memories
            (addConnection ''A'' ''B'' Causes (3 / 10) None
               (addConnection ''A'' ''B'' Related_to (8 / 10) None graph_app)))
       = [[demo_edge ''C'' (1 / 2),
           \<lparr>c_type = Causes, c_targetId = ''B'', c_strength = 3 / 10, c_description = None\<rparr>],
          []]"
      by (rule graph_app_run)
  qed
qed

section \<open>Similarity search\<close>

lemma insert_sorted_desc:
  "insert_sorted (\<lambda>a b. k b - k a) x ys = insort_key (\<lambda>x. - k x) x ys"
  by (induction ys) auto

lemma js_sort_desc: "js_sort (\<lambda>a b. k b - k a) xs = sort_key (\<lambda>x. - k x) xs"
proof -
  have "insert_sorted (\<lambda>a b. k b - k a) = insort_key (\<lambda>x. - k x)"
    by (intro ext) (rule insert_sorted_desc)
  then show ?thesis
    by (simp add: js_sort_def sort_key_def)
qed

lemma insort_key_map:
  "insort_key f (g x) (map g xs) = map g (insort_key (\<lambda>x. f (g x)) x xs)"
  by (induction xs) auto

lemma sort_key_map: "sort_key f (map g xs) = map g (sort_key (\<lambda>x. f (g x)) xs)"
  by (induction xs) (auto simp: insort_key_map)

lemma filter_take_ex: "\<exists>m. filter Q (take n xs) = take m (filter Q xs)"
proof (induction xs arbitrary: n)
  case Nil
  show ?case by simp
next
  case (Cons x xs)
  show ?case
  proof (cases n)
    case 0
    then show ?thesis by (intro exI [of _ 0]) simp
  next
    case (Suc n')
    from Cons.IH [of n'] obtain m where m: "filter Q (take n' xs) = take m (filter Q xs)" ..
    show ?thesis
    proof (cases "Q x")
      case True
      with m Suc show ?thesis by (intro exI [of _ "Suc m"]) simp
    next
      case False
      with m Suc show ?thesis by (intro exI [of _ m]) simp
    qed
  qed
qed

lemma slice0_take: "\<exists>n. slice0 limit xs = take n xs"
  by (auto simp: slice0_def)

lemma length_slice0: "0 \<le> limit \<Longrightarrow> length (slice0 limit xs) = min (nat limit) (length xs)"
  by (simp add: slice0_def)

lemma map_throwing_Inr:
  "map_throwing f xs = Inr ys \<Longrightarrow> list_all2 (\<lambda>x y. f x = Inr y) xs ys"
  by (induction xs arbitrary: ys) (auto split: sum.splits)

lemma map_throwing_total:
  "\<forall>x \<in> set xs. \<exists>y. f x = Inr y \<Longrightarrow> \<exists>ys. map_throwing f xs = Inr ys"
  by (induction xs) (auto split: sum.splits)

lemma map_filter_all_Some:
  "list_all2 (\<lambda>x y. f x = Some y) xs ys \<Longrightarrow> List.map_filter f xs = ys"
  by (induction rule: list_all2_induct) (auto simp: List.map_filter_simps)

lemma findSimilarMemories_cases:
  "findSimilarMemories env content limit minSimilarity vs = Inr []
   \<or> findSimilarMemories env content limit minSimilarity vs
       = Inr (ranked limit minSimilarity (all_matches env content vs))"
proof (cases "generateEmbedding env content")
  case (Inl e)
  then show ?thesis by (simp add: findSimilarMemories_def)
next
  case (Inr q)
  let ?f = "\<lambda>storedMemory.
              case cosineSimilarity q (s_embedding storedMemory) of
                Inl e \<Rightarrow> Inl e
              | Inr similarity \<Rightarrow> Inr (storedMemory, similarity)"
  show ?thesis
  proof (cases "map_throwing ?f (memories vs)")
    case (Inl e)
    with Inr show ?thesis by (simp add: findSimilarMemories_def)
  next
    case sims: (Inr sims)
    from map_throwing_Inr [OF sims]
    have "list_all2 (\<lambda>sm p. (case cosineSimilarity q (s_embedding sm) of
                                Inl e \<Rightarrow> None
                              | Inr similarity \<Rightarrow>
                                  Some \<lparr>r_memory = toMemory sm, r_similarity = similarity\<rparr>)
                             = Some p)
            (memories vs) (map to_match sims)"
      by (auto simp: list_all2_map2 to_match_def split: sum.splits elim!: list_all2_mono)
    then have all: "all_matches env content vs = map to_match sims"
      using Inr by (simp add: all_matches_def map_filter_all_Some)
    have "findSimilarMemories env content limit minSimilarity vs
            = Inr (map to_match
                     (slice0 limit
                        (sort_key (\<lambda>p. - snd p) (filter (\<lambda>p. minSimilarity \<le> snd p) sims))))"
      using Inr sims
      by (simp add: findSimilarMemories_def js_sort_desc to_match_def case_prod_unfold)
    also have "map to_match
                     (slice0 limit
                        (sort_key (\<lambda>p. - snd p) (filter (\<lambda>p. minSimilarity \<le> snd p) sims)))
               = ranked limit minSimilarity (map to_match sims)"
      by (simp add: ranked_def slice0_def sort_key_map filter_map comp_def to_match_def take_map)
    finally show ?thesis by (simp add: all)
  qed
qed

lemma ranked_above_floor: "r \<in> set (ranked limit minSimilarity ms) \<Longrightarrow> minSimilarity \<le> r_similarity r"
proof -
  obtain n where "slice0 limit (sort_key (\<lambda>r. - r_similarity r)
                     (filter (\<lambda>r. minSimilarity \<le> r_similarity r) ms))
      = take n (sort_key (\<lambda>r. - r_similarity r)
                     (filter (\<lambda>r. minSimilarity \<le> r_similarity r) ms))"
    using slice0_take by blast
  moreover assume "r \<in> set (ranked limit minSimilarity ms)"
  ultimately have "r \<in> set (filter (\<lambda>r. minSimilarity \<le> r_similarity r) ms)"
    by (auto simp: ranked_def dest: in_set_takeD)
  then show ?thesis by simp
qed

lemma ranked_subset: "set (ranked limit minSimilarity ms) \<subseteq> set ms"
proof -
  obtain n where "slice0 limit (sort_key (\<lambda>r. - r_similarity r)
                     (filter (\<lambda>r. minSimilarity \<le> r_similarity r) ms))
      = take n (sort_key (\<lambda>r. - r_similarity r)
                     (filter (\<lambda>r. minSimilarity \<le> r_similarity r) ms))"
    using slice0_take by blast
  then show ?thesis
    by (auto simp: ranked_def dest: in_set_takeD)
qed

lemma ranked_sorted:
  "sorted_wrt (\<lambda>a b. r_similarity b \<le> r_similarity a) (ranked limit minSimilarity ms)"
proof -
  let ?xs = "sort_key (\<lambda>r. - r_similarity r) (filter (\<lambda>r. minSimilarity \<le> r_similarity r) ms)"
  obtain n where n: "slice0 limit ?xs = take n ?xs"
    using slice0_take by blast
  have "sorted (map (\<lambda>r. - r_similarity r) ?xs)"
    by (rule sorted_sort_key)
  then have "sorted (map (\<lambda>r. - r_similarity r) (take n ?xs))"
    by (simp add: take_map [symmetric] sorted_wrt_take)
  then show ?thesis
    by (simp add: ranked_def n sorted_map)
qed

lemma ranked_stable:
  "\<exists>n. filter (\<lambda>r. r_similarity r = k) (ranked limit minSimilarity ms)
         = take n (filter (\<lambda>r. r_similarity r = k) ms)"
proof -
  let ?ys = "filter (\<lambda>r. minSimilarity \<le> r_similarity r) ms"
  let ?xs = "sort_key (\<lambda>r. - r_similarity r) ?ys"
  obtain n where n: "slice0 limit ?xs = take n ?xs"
    using slice0_take by blast
  obtain m where m: "filter (\<lambda>r. r_similarity r = k) (take n ?xs)
                       = take m (filter (\<lambda>r. r_similarity r = k) ?xs)"
    using filter_take_ex by blast
  have "filter (\<lambda>r. r_similarity r = k) ?xs = filter (\<lambda>r. - r_similarity r = - k) ?xs"
    by simp
  also have "\<dots> = filter (\<lambda>r. - r_similarity r = - k) ?ys"
    by (rule sort_key_stable)
  also have "\<dots> = (if minSimilarity \<le> k then filter (\<lambda>r. r_similarity r = k) ms else [])"
    by (auto simp: filter_empty_conv intro: filter_cong)
  finally have "filter (\<lambda>r. r_similarity r = k) (ranked limit minSimilarity ms)
         = take (if minSimilarity \<le> k then m else 0) (filter (\<lambda>r. r_similarity r = k) ms)"
    by (simp add: ranked_def n m)
  then show ?thesis ..
qed

lemma all_matches_connections:
  "r \<in> set (all_matches env content vs) \<Longrightarrow> m_connections (r_memory r) = []"
  by (auto simp: all_matches_def toMemory_def List.map_filter_def split: sum.splits)

lemma findSimilar_bounds:
  "\<exists>res. findSimilarMemories env content limit minSimilarity vs = Inr res
     \<and> set res \<subseteq> set (all_matches env content vs)
     \<and> (\<forall>r \<in> set res. minSimilarity \<le> r_similarity r)
     \<and> sorted_wrt (\<lambda>a b. r_similarity b \<le> r_similarity a) res
     \<and> (\<forall>k. \<exists>n. filter (\<lambda>r. r_similarity r = k) res
                   = take n (filter (\<lambda>r. r_similarity r = k) (all_matches env content vs)))
     \<and> (0 \<le> limit \<longrightarrow> int (length res) \<le> limit)
     \<and> (\<forall>r \<in> set res. m_connections (r_memory r) = [])"
proof -
  let ?M = "all_matches env content vs"
  consider (empty) "findSimilarMemories env content limit minSimilarity vs = Inr []"
    | (ranked) "findSimilarMemories env content limit minSimilarity vs
                  = Inr (ranked limit minSimilarity ?M)"
    using findSimilarMemories_cases by blast
  then show ?thesis
  proof cases
    case empty
    have "\<forall>k. \<exists>n. filter (\<lambda>r. r_similarity r = k) []
                   = take n (filter (\<lambda>r. r_similarity r = k) ?M)"
      by (intro allI exI [of _ 0]) simp
    with empty show ?thesis by simp
  next
    case ranked
    have sub: "set (ranked limit minSimilarity ?M) \<subseteq> set ?M"
      by (rule ranked_subset)
    have "0 \<le> limit \<longrightarrow> int (length (ranked limit minSimilarity ?M)) \<le> limit"
      by (auto simp: ranked_def length_slice0)
    moreover have "\<forall>r \<in> set (ranked limit minSimilarity ?M). m_connections (r_memory r) = []"
      using sub all_matches_connections by blast
    moreover have "\<forall>r \<in> set (ranked limit minSimilarity ?M). minSimilarity \<le> r_similarity r"
      using ranked_above_floor by blast
    ultimately show ?thesis
      using ranked sub ranked_sorted ranked_stable by simp
  qed
qed

lemma map_throwing_fails:
  "x \<in> set xs \<Longrightarrow> f x = Inl e \<Longrightarrow> \<exists>e'. map_throwing f xs = Inl e'"
  by (induction xs) (auto split: sum.splits)

lemma findSimilarMemories_scored:
  assumes q: "generateEmbedding env content = Inr q"
    and sims: "map_throwing
                 (\<lambda>storedMemory.
                    case cosineSimilarity q (s_embedding storedMemory) of
                      Inl e \<Rightarrow> Inl e
                    | Inr similarity \<Rightarrow> Inr (storedMemory, similarity))
                 (memories vs) = Inr sims"
  shows "all_matches env content vs = map to_match sims
         \<and> findSimilarMemories env content limit minSimilarity vs
             = Inr (ranked limit minSimilarity (all_matches env content vs))"
proof -
  from map_throwing_Inr [OF sims]
  have "list_all2 (\<lambda>sm p. (case cosineSimilarity q (s_embedding sm) of
                              Inl e \<Rightarrow> None
                            | Inr similarity \<Rightarrow>
                                Some \<lparr>r_memory = toMemory sm, r_similarity = similarity\<rparr>)
                           = Some p)
          (memories vs) (map to_match sims)"
    by (auto simp: list_all2_map2 to_match_def split: sum.splits elim!: list_all2_mono)
  then have all: "all_matches env content vs = map to_match sims"
    using q by (simp add: all_matches_def map_filter_all_Some)
  have "findSimilarMemories env content limit minSimilarity vs
          = Inr (map to_match
                   (slice0 limit
                      (sort_key (\<lambda>p. - snd p) (filter (\<lambda>p. minSimilarity \<le> snd p) sims))))"
    using q sims
    by (simp add: findSimilarMemories_def js_sort_desc to_match_def case_prod_unfold)
  also have "map to_match
                   (slice0 limit
                      (sort_key (\<lambda>p. - snd p) (filter (\<lambda>p. minSimilarity \<le> snd p) sims)))
             = ranked limit minSimilarity (map to_match sims)"
    by (simp add: ranked_def slice0_def sort_key_map filter_map comp_def to_match_def take_map)
  finally show ?thesis by (simp add: all)
qed

lemma findSimilarMemories_exact:
  assumes q: "generateEmbedding env content = Inr q"
    and dims: "\<forall>sm \<in> set (memories vs). length (s_embedding sm) = length q"
  shows "findSimilarMemories env content limit minSimilarity vs
           = Inr (ranked limit minSimilarity (all_matches env content vs))
         \<and> list_all2 (\<lambda>sm r. r_memory r = toMemory sm
                              \<and> cosineSimilarity q (s_embedding sm) = Inr (r_similarity r))
             (memories vs) (all_matches env content vs)"
proof -
  let ?f = "\<lambda>storedMemory.
              case cosineSimilarity q (s_embedding storedMemory) of
                Inl e \<Rightarrow> Inl e
              | Inr similarity \<Rightarrow> Inr (storedMemory, similarity)"
  have "\<forall>sm \<in> set (memories vs). \<exists>y. ?f sm = Inr y"
  proof
    fix sm assume "sm \<in> set (memories vs)"
    with dims have "length q = length (s_embedding sm)" by simp
    from cosineSimilarity_defined [OF this] obtain s
      where "cosineSimilarity q (s_embedding sm) = Inr s" ..
    then show "\<exists>y. ?f sm = Inr y" by simp
  qed
  from map_throwing_total [OF this] obtain sims
    where sims: "map_throwing ?f (memories vs) = Inr sims" ..
  note scored = findSimilarMemories_scored [OF q sims]
  from map_throwing_Inr [OF sims]
  have "list_all2 (\<lambda>sm r. r_memory r = toMemory sm
                              \<and> cosineSimilarity q (s_embedding sm) = Inr (r_similarity r))
             (memories vs) (map to_match sims)"
    by (auto simp: list_all2_map2 to_match_def split: sum.splits elim!: list_all2_mono)
  with scored show ?thesis by simp
qed

lemma findSimilarMemories_mismatch:
  assumes q: "generateEmbedding env content = Inr q"
    and sm: "sm \<in> set (memories vs)" "length (s_embedding sm) \<noteq> length q"
  shows "findSimilarMemories env content limit minSimilarity vs = Inr []"
proof -
  let ?f = "\<lambda>storedMemory.
              case cosineSimilarity q (s_embedding storedMemory) of
                Inl e \<Rightarrow> Inl e
              | Inr similarity \<Rightarrow> Inr (storedMemory, similarity)"
  from sm(2) have "length q \<noteq> length (s_embedding sm)" by simp
  then have "?f sm = Inl DimensionMismatch"
    by (simp add: cosineSimilarity_mismatch)
  from map_throwing_fails [of sm "memories vs" ?f DimensionMismatch, OF sm(1) this] obtain e'
    where "map_throwing ?f (memories vs) = Inl e'" ..
  with q show ?thesis by (simp add: findSimilarMemories_def)
qed


lemma findSimilar_embedding_caught:
  "generateEmbedding env content = Inl e \<Longrightarrow>
   findSimilarMemories env content limit minSimilarity vs = Inr []"
  by (simp add: findSimilarMemories_def)

text \<open>
  Claim C6. For every collection, query, limit and floor, \<open>findSimilarMemories\<close> returns a
  list of matches taken from the stored vectors, each with similarity at least
  \<open>minSimilarity\<close>, in descending order of similarity, matches of equal similarity in their
  order of insertion, every returned memory with an empty \<open>connections\<close> list. When the query
  is embedded and every stored vector has the dimension of the query vector, the list is
  exactly \<open>ranked limit minSimilarity\<close> of the matches of all stored vectors, one per stored
  memory in order of insertion, each paired with its cosine similarity to the query: for a
  limit that is a count (not negative) these are the first \<open>limit\<close> entries of the stable
  descending sort of all the matches at or above the floor, so none of them is left out but by
  the truncation. When the embedding fails or a stored vector has another dimension, the list
  is empty.
\<close>

theorem findSimilar_result:
  "\<exists>res. findSimilarMemories env content limit minSimilarity vs = Inr res
     \<and> set res \<subseteq> set (all_matches env content vs)
     \<and> (\<forall>r \<in> set res. minSimilarity \<le> r_similarity r)
     \<and> sorted_wrt (\<lambda>a b. r_similarity b \<le> r_similarity a) res
     \<and> (\<forall>k. \<exists>n. filter (\<lambda>r. r_similarity r = k) res
                   = take n (filter (\<lambda>r. r_similarity r = k) (all_matches env content vs)))
     \<and> (0 \<le> limit \<longrightarrow> int (length res) \<le> limit)
     \<and> (\<forall>r \<in> set res. m_connections (r_memory r) = [])
     \<and> (\<forall>q. generateEmbedding env content = Inr q
              \<and> (\<forall>sm \<in> set (memories vs). length (s_embedding sm) = length q)
            \<longrightarrow> res = ranked limit minSimilarity (all_matches env content vs)
                \<and> list_all2 (\<lambda>sm r. r_memory r = toMemory sm
                                     \<and> cosineSimilarity q (s_embedding sm) = Inr (r_similarity r))
                     (memories vs) (all_matches env content vs))
     \<and> (0 \<le> limit \<longrightarrow>
           ranked limit minSimilarity (all_matches env content vs)
             = take (nat limit)
                 (sort_key (\<lambda>r. - r_similarity r)
                    (filter (\<lambda>r. minSimilarity \<le> r_similarity r)
                       (all_matches env content vs))))
     \<and> ((\<exists>e. generateEmbedding env content = Inl e)
          \<or> (\<exists>q. generateEmbedding env content = Inr q
                  \<and> (\<exists>sm \<in> set (memories vs). length (s_embedding sm) \<noteq> length q))
         \<longrightarrow> res = [])"
proof -
  from findSimilar_bounds [of env content limit minSimilarity vs]
  obtain res where res: "findSimilarMemories env content limit minSimilarity vs = Inr res"
    and b1: "set res \<subseteq> set (all_matches env content vs)"
    and b2: "\<forall>r \<in> set res. minSimilarity \<le> r_similarity r"
    and b3: "sorted_wrt (\<lambda>a b. r_similarity b \<le> r_similarity a) res"
    and b4: "\<forall>k. \<exists>n. filter (\<lambda>r. r_similarity r = k) res
                   = take n (filter (\<lambda>r. r_similarity r = k) (all_matches env content vs))"
    and b5: "0 \<le> limit \<longrightarrow> int (length res) \<le> limit"
    and b6: "\<forall>r \<in> set res. m_connections (r_memory r) = []"
    by (elim exE conjE)
  have exact: "\<forall>q. generateEmbedding env content = Inr q
              \<and> (\<forall>sm \<in> set (memories vs). length (s_embedding sm) = length q)
            \<longrightarrow> res = ranked limit minSimilarity (all_matches env content vs)
                \<and> list_all2 (\<lambda>sm r. r_memory r = toMemory sm
                                     \<and> cosineSimilarity q (s_embedding sm) = Inr (r_similarity r))
                     (memories vs) (all_matches env content vs)"
  proof (intro allI impI)
    fix q
    assume a: "generateEmbedding env content = Inr q
              \<and> (\<forall>sm \<in> set (memories vs). length (s_embedding sm) = length q)"
    note ex = findSimilarMemories_exact
                [OF conjunct1 [OF a] conjunct2 [OF a], of limit minSimilarity]
    have e: "findSimilarMemories env content limit minSimilarity vs
               = Inr (ranked limit minSimilarity (all_matches env content vs))"
      by (rule conjunct1 [OF ex])
    have l: "list_all2 (\<lambda>sm r. r_memory r = toMemory sm
                                     \<and> cosineSimilarity q (s_embedding sm) = Inr (r_similarity r))
                     (memories vs) (all_matches env content vs)"
      by (rule conjunct2 [OF ex])
    from res have "Inr res = (Inr (ranked limit minSimilarity (all_matches env content vs))
                               :: error + match list)"
      by (simp only: e)
    then have "res = ranked limit minSimilarity (all_matches env content vs)"
      by (simp only: sum.inject)
    with l show "res = ranked limit minSimilarity (all_matches env content vs)
                \<and> list_all2 (\<lambda>sm r. r_memory r = toMemory sm
                                     \<and> cosineSimilarity q (s_embedding sm) = Inr (r_similarity r))
                     (memories vs) (all_matches env content vs)"
      by (intro conjI)
  qed
  have cut: "0 \<le> limit \<longrightarrow>
           ranked limit minSimilarity (all_matches env content vs)
             = take (nat limit)
                 (sort_key (\<lambda>r. - r_similarity r)
                    (filter (\<lambda>r. minSimilarity \<le> r_similarity r)
                       (all_matches env content vs)))"
    by (simp add: ranked_def slice0_def)
  have fail: "(\<exists>e. generateEmbedding env content = Inl e)
          \<or> (\<exists>q. generateEmbedding env content = Inr q
                  \<and> (\<exists>sm \<in> set (memories vs). length (s_embedding sm) \<noteq> length q))
         \<longrightarrow> res = []"
  proof
    assume "(\<exists>e. generateEmbedding env content = Inl e)
          \<or> (\<exists>q. generateEmbedding env content = Inr q
                  \<and> (\<exists>sm \<in> set (memories vs). length (s_embedding sm) \<noteq> length q))"
    then have "findSimilarMemories env content limit minSimilarity vs = Inr []"
    proof
      assume "\<exists>e. generateEmbedding env content = Inl e"
      then obtain e where "generateEmbedding env content = Inl e" ..
      then show ?thesis by (rule findSimilar_embedding_caught)
    next
      assume "\<exists>q. generateEmbedding env content = Inr q
                  \<and> (\<exists>sm \<in> set (memories vs). length (s_embedding sm) \<noteq> length q)"
      then obtain q sm where "generateEmbedding env content = Inr q"
        "sm \<in> set (memories vs)" "length (s_embedding sm) \<noteq> length q"
        by blast
      then show ?thesis by (rule findSimilarMemories_mismatch)
    qed
    with res have "Inr res = (Inr [] :: error + match list)" by (simp only:)
    then show "res = []" by (simp only: sum.inject)
  qed
  show ?thesis
    by (rule exI [of _ res], intro conjI) (rule res b1 b2 b3 b4 b5 b6 exact cut fail)+
qed

lemma three_run:
  "findSimilarMemories (demo_env 10) ''cat'' 2 (7 / 10) three_store
     = Inr [\<lparr>r_memory = toMemory (demo_stored ''a'' ''cat'' [1, 0]), r_similarity = 1\<rparr>,
            \<lparr>r_memory = toMemory (demo_stored ''d'' ''cat'' [1, 0]), r_similarity = 1\<rparr>]"
  by (simp add: findSimilarMemories_def demo_env_def demo_embedding_def three_store_def
      demo_stored_def toStoredMemory_def cosineSimilarity_def js_sort_def slice0_def)

lemma three_matches:
  "all_matches (demo_env 10) ''cat'' three_store
     = [\<lparr>r_memory = toMemory (demo_stored ''a'' ''cat'' [1, 0]), r_similarity = 1\<rparr>,
        \<lparr>r_memory = toMemory (demo_stored ''b'' ''kitten'' [4 / 5, 3 / 5]), r_similarity = 4 / 5\<rparr>,
        \<lparr>r_memory = toMemory (demo_stored ''c'' ''dog'' [0, 1]), r_similarity = 0\<rparr>,
        \<lparr>r_memory = toMemory (demo_stored ''d'' ''cat'' [1, 0]), r_similarity = 1\<rparr>]"
  by (simp add: all_matches_def demo_env_def demo_embedding_def three_store_def
      demo_stored_def toStoredMemory_def cosineSimilarity_def List.map_filter_simps)

theorem findSimilar_result_witness:
  "(0::int) \<le> 2
   \<and> generateEmbedding (demo_env 10) ''cat'' = Inr [1, 0]
   \<and> map (\<lambda>sm. length (s_embedding sm)) (memories three_store) = [2, 2, 2, 2]
   \<and> all_matches (demo_env 10) ''cat'' three_store
       = [\<lparr>r_memory = toMemory (demo_stored ''a'' ''cat'' [1, 0]), r_similarity = 1\<rparr>,
          \<lparr>r_memory = toMemory (demo_stored ''b'' ''kitten'' [4 / 5, 3 / 5]), r_similarity = 4 / 5\<rparr>,
          \<lparr>r_memory = toMemory (demo_stored ''c'' ''dog'' [0, 1]), r_similarity = 0\<rparr>,
          \<lparr>r_memory = toMemory (demo_stored ''d'' ''cat'' [1, 0]), r_similarity = 1\<rparr>]
   \<and> findSimilarMemories (demo_env 10) ''cat'' 2 (7 / 10) three_store
       = Inr [\<lparr>r_memory = toMemory (demo_stored ''a'' ''cat'' [1, 0]), r_similarity = 1\<rparr>,
              \<lparr>r_memory = toMemory (demo_stored ''d'' ''cat'' [1, 0]), r_similarity = 1\<rparr>]
   \<and> ranked 2 (7 / 10) (all_matches (demo_env 10) ''cat'' three_store)
       = [\<lparr>r_memory = toMemory (demo_stored ''a'' ''cat'' [1, 0]), r_similarity = 1\<rparr>,
          \<lparr>r_memory = toMemory (demo_stored ''d'' ''cat'' [1, 0]), r_similarity = 1\<rparr>]
   \<and> generateEmbedding (demo_env 10) [] = Inl EmbeddingError
   \<and> findSimilarMemories (demo_env 10) [] 2 (7 / 10) three_store = Inr []"
proof -
  have q: "generateEmbedding (demo_env 10) ''cat'' = Inr [1, 0]"
    by (simp add: demo_env_def demo_embedding_def)
  have lens: "map (\<lambda>sm. length (s_embedding sm)) (memories three_store) = [2, 2, 2, 2]"
    by (simp add: three_store_def demo_stored_def toStoredMemory_def)
  have dims: "\<forall>sm \<in> set (memories three_store). length (s_embedding sm) = length [1, 0 :: real]"
    by (simp add: three_store_def demo_stored_def toStoredMemory_def)
  from findSimilar_result [of "demo_env 10" "''cat''" 2 "7 / 10" three_store]
  obtain res where res: "findSimilarMemories (demo_env 10) ''cat'' 2 (7 / 10) three_store = Inr res"
    and exact: "\<forall>q. generateEmbedding (demo_env 10) ''cat'' = Inr q
              \<and> (\<forall>sm \<in> set (memories three_store). length (s_embedding sm) = length q)
            \<longrightarrow> res = ranked 2 (7 / 10) (all_matches (demo_env 10) ''cat'' three_store)
                \<and> list_all2 (\<lambda>sm r. r_memory r = toMemory sm
                                     \<and> cosineSimilarity q (s_embedding sm) = Inr (r_similarity r))
                     (memories three_store) (all_matches (demo_env 10) ''cat'' three_store)"
    by (elim exE conjE)
  from exact q dims
  have eq: "res = ranked 2 (7 / 10) (all_matches (demo_env 10) ''cat'' three_store)"
    by blast
  from res have "Inr res = (Inr [\<lparr>r_memory = toMemory (demo_stored ''a'' ''cat'' [1, 0]), r_similarity = 1\<rparr>,
              \<lparr>r_memory = toMemory (demo_stored ''d'' ''cat'' [1, 0]), r_similarity = 1\<rparr>]
                 :: error + match list)"
    by (simp only: three_run)
  then have val: "res = [\<lparr>r_memory = toMemory (demo_stored ''a'' ''cat'' [1, 0]), r_similarity = 1\<rparr>,
              \<lparr>r_memory = toMemory (demo_stored ''d'' ''cat'' [1, 0]), r_similarity = 1\<rparr>]"
    by (simp only: sum.inject)
  have rk: "ranked 2 (7 / 10) (all_matches (demo_env 10) ''cat'' three_store)
       = [\<lparr>r_memory = toMemory (demo_stored ''a'' ''cat'' [1, 0]), r_similarity = 1\<rparr>,
          \<lparr>r_memory = toMemory (demo_stored ''d'' ''cat'' [1, 0]), r_similarity = 1\<rparr>]"
    using eq val by (simp only:)
  have bad: "generateEmbedding (demo_env 10) [] = Inl EmbeddingError"
    by (simp add: demo_env_def demo_embedding_def)
  from findSimilar_result [of "demo_env 10" "[]" 2 "7 / 10" three_store]
  obtain res' where res': "findSimilarMemories (demo_env 10) [] 2 (7 / 10) three_store = Inr res'"
    and fail: "(\<exists>e. generateEmbedding (demo_env 10) [] = Inl e)
          \<or> (\<exists>q. generateEmbedding (demo_env 10) [] = Inr q
                  \<and> (\<exists>sm \<in> set (memories three_store). length (s_embedding sm) \<noteq> length q))
         \<longrightarrow> res' = []"
    by (elim exE conjE)
  from fail bad have "res' = []" by blast
  with res' have empty: "findSimilarMemories (demo_env 10) [] 2 (7 / 10) three_store = Inr []"
    by (simp only:)
  have zero: "(0::int) \<le> 2" by simp
  show ?thesis
    by (intro conjI) (rule zero q lens three_matches three_run rk bad empty)+
qed

section \<open>Related memories\<close>

lemma set_Set_add: "set (Set_add x xs) = insert x (set xs)"
  by (auto simp: Set_add_def)

lemma distinct_Set_add: "distinct xs \<Longrightarrow> distinct (Set_add x xs)"
  by (simp add: Set_add_def)

lemma keys_Map_set: "map fst (Map_set k v m) = Set_add k (map fst m)"
proof (induction m)
  case Nil
  show ?case by (simp add: Set_add_def)
next
  case (Cons p m)
  obtain k' v' where p: "p = (k', v')" by (cases p)
  show ?case
  proof (cases "k' = k")
    case True
    then show ?thesis by (simp add: p Set_add_def)
  next
    case False
    with Cons.IH show ?thesis by (simp add: p Set_add_def split: if_splits)
  qed
qed

lemma Map_get_Map_set:
  "Map_get (Map_set k v m) k' = (if k' = k then Some v else Map_get m k')"
  by (induction m) (auto simp: Map_get_def)

lemma set_Map_set: "set (Map_set k v m) \<subseteq> insert (k, v) (set m)"
proof (induction m)
  case Nil
  show ?case by simp
next
  case (Cons p m)
  obtain k' v' where p: "p = (k', v')" by (cases p)
  from Cons.IH show ?case by (cases "k' = k") (auto simp: p)
qed

lemma Map_set_fresh: "k \<notin> fst ` set m \<Longrightarrow> Map_set k v m = m @ [(k, v)]"
  by (induction m) auto

lemma fold_Map_set_keys:
  "distinct (map fst m) \<Longrightarrow>
   distinct (map fst (fold (\<lambda>(k, v) m. Map_set k v m) ps m))"
  by (induction ps arbitrary: m) (auto simp: keys_Map_set distinct_Set_add)

lemma fold_Map_set_entries:
  "set (fold (\<lambda>(k, v) m. Map_set k v m) ps m) \<subseteq> set m \<union> set ps"
proof (induction ps arbitrary: m)
  case Nil
  show ?case by simp
next
  case (Cons p ps)
  obtain k v where p: "p = (k, v)" by (cases p)
  have "set (fold (\<lambda>(k, v) m. Map_set k v m) ps (Map_set k v m)) \<subseteq> set (Map_set k v m) \<union> set ps"
    by (rule Cons.IH)
  with set_Map_set [of k v m] show ?case
    by (auto simp: p)
qed

lemma fold_Map_set_key_set:
  "fst ` set (fold (\<lambda>(k, v) m. Map_set k v m) ps m) = fst ` set m \<union> fst ` set ps"
proof (induction ps arbitrary: m)
  case Nil
  show ?case by simp
next
  case (Cons p ps)
  obtain k v where p: "p = (k, v)" by (cases p)
  have "fst ` set (Map_set k v m) = insert k (fst ` set m)"
    using keys_Map_set [of k v m] set_Set_add [of k "map fst m"]
    by (metis list.set_map)
  with Cons.IH [of "Map_set k v m"] show ?case
    by (auto simp: p)
qed

lemma fold_Map_set_distinct:
  "distinct (map fst (m @ ps)) \<Longrightarrow> fold (\<lambda>(k, v) m. Map_set k v m) ps m = m @ ps"
proof (induction ps arbitrary: m)
  case Nil
  show ?case by simp
next
  case (Cons p ps)
  obtain k v where p: "p = (k, v)" by (cases p)
  from Cons.prems have "k \<notin> fst ` set m" by (auto simp: p)
  then have "Map_set k v m = m @ [(k, v)]" by (rule Map_set_fresh)
  moreover from Cons.prems have "distinct (map fst ((m @ [(k, v)]) @ ps))" by (simp add: p)
  ultimately show ?case
    using Cons.IH [of "m @ [(k, v)]"] by (simp add: p)
qed

lemma Map_new_keys: "distinct (map fst (Map_new ps))"
  by (simp add: Map_new_def fold_Map_set_keys)

lemma Map_new_entries: "set (Map_new ps) \<subseteq> set ps"
  using fold_Map_set_entries [of ps "[]"] by (simp add: Map_new_def)

lemma Map_new_key_set: "fst ` set (Map_new ps) = fst ` set ps"
  using fold_Map_set_key_set [of ps "[]"] by (simp add: Map_new_def)

lemma Map_new_distinct: "distinct (map fst ps) \<Longrightarrow> Map_new ps = ps"
  using fold_Map_set_distinct [of "[]" ps] by (simp add: Map_new_def)

lemma outgoing_inner_fold:
  "fold (\<lambda>conn (relatedIds, relationStrengths).
           (Set_add (c_targetId conn) relatedIds,
            Map_set (c_targetId conn) (c_strength conn) relationStrengths))
     conns acc
   = fold step_out (map (\<lambda>c. (c_targetId c, c_strength c)) conns) acc"
proof (induction conns arbitrary: acc)
  case Nil
  show ?case by simp
next
  case (Cons c conns)
  obtain ids strs where acc: "acc = (ids, strs)" by (cases acc)
  show ?case
    by (simp add: acc Cons.IH step_out_def)
qed

lemma collect_outgoing_fold:
  "collect_outgoing (m_connections target) acc = fold step_out (outgoing_edges target) acc"
  by (simp add: collect_outgoing_def outgoing_edges_def outgoing_inner_fold)

lemma incoming_inner_fold:
  "fold (\<lambda>conn (relatedIds, relationStrengths).
           if c_targetId conn = ident then
             (Set_add k relatedIds,
              Map_set k (max (c_strength conn) (or_number (Map_get relationStrengths k) 0))
                relationStrengths)
           else (relatedIds, relationStrengths))
     conns acc
   = fold step_in (map (\<lambda>c. (k, c_strength c)) (filter (\<lambda>c. c_targetId c = ident) conns)) acc"
proof (induction conns arbitrary: acc)
  case Nil
  show ?case by simp
next
  case (Cons c conns)
  obtain ids strs where acc: "acc = (ids, strs)" by (cases acc)
  show ?case
    by (simp add: acc Cons.IH step_in_def)
qed

lemma collect_incoming_fold:
  "collect_incoming ident mems acc = fold step_in (incoming_edges ident mems) acc"
proof (induction mems arbitrary: acc)
  case Nil
  show ?case by (simp add: collect_incoming_def incoming_edges_def)
next
  case (Cons m mems)
  have "collect_incoming ident (m # mems) acc
          = collect_incoming ident mems
              (fold step_in (map (\<lambda>c. (m_id m, c_strength c))
                               (filter (\<lambda>c. c_targetId c = ident) (m_connections m))) acc)"
    by (simp add: collect_incoming_def incoming_inner_fold)
  then show ?case
    by (simp add: Cons.IH incoming_edges_def)
qed

lemma wf_step_out: "wf_related rel \<Longrightarrow> wf_related (step_out e rel)"
  unfolding wf_related_def step_out_def
  by (metis distinct_Set_add fst_conv keys_Map_set snd_conv)

lemma wf_step_in: "wf_related rel \<Longrightarrow> wf_related (step_in e rel)"
  unfolding wf_related_def step_in_def
  by (metis distinct_Set_add fst_conv keys_Map_set snd_conv)

lemma wf_fold_out: "wf_related rel \<Longrightarrow> wf_related (fold step_out es rel)"
  by (induction es arbitrary: rel) (simp_all add: wf_step_out)

lemma wf_fold_in: "wf_related rel \<Longrightarrow> wf_related (fold step_in es rel)"
  by (induction es arbitrary: rel) (simp_all add: wf_step_in)

lemma ids_fold_out: "set (fst (fold step_out es rel)) = set (fst rel) \<union> fst ` set es"
  by (induction es arbitrary: rel) (auto simp: step_out_def set_Set_add)

lemma ids_fold_in: "set (fst (fold step_in es rel)) = set (fst rel) \<union> fst ` set es"
  by (induction es arbitrary: rel) (auto simp: step_in_def set_Set_add)

lemma explicit_ids_edges:
  "explicit_ids ident target mems
     = fst ` set (outgoing_edges target) \<union> fst ` set (incoming_edges ident mems)"
proof -
  have "fst ` set (outgoing_edges target) = c_targetId ` set (m_connections target)"
    by (simp add: outgoing_edges_def image_image)
  moreover have "fst ` set (incoming_edges ident mems)
      = {m_id m |m. m \<in> set mems \<and> (\<exists>c \<in> set (m_connections m). c_targetId c = ident)}"
    (is "?L = ?R")
  proof (intro equalityI subsetI)
    fix k assume "k \<in> ?L"
    then obtain s where "(k, s) \<in> set (incoming_edges ident mems)" by auto
    then obtain m c where "m \<in> set mems" "c \<in> set (m_connections m)" "c_targetId c = ident"
      "k = m_id m"
      unfolding incoming_edges_def by auto
    then show "k \<in> ?R" by blast
  next
    fix k assume "k \<in> ?R"
    then obtain m c where m: "m \<in> set mems" "c \<in> set (m_connections m)" "c_targetId c = ident"
      "k = m_id m"
      by blast
    then have "(k, c_strength c) \<in> set (incoming_edges ident mems)"
      unfolding incoming_edges_def by auto
    then show "k \<in> ?L" by (rule image_eqI [rotated]) simp
  qed
  ultimately show ?thesis by (simp add: explicit_ids_def)
qed

lemma related_of_fold:
  "related_of ident target mems
     = fold step_in (incoming_edges ident mems) (fold step_out (outgoing_edges target) ([], []))"
  by (simp add: related_of_def collect_incoming_fold collect_outgoing_fold)

lemma related_of_wf: "wf_related (related_of ident target mems)"
proof -
  have "wf_related ([], [])" by (simp add: wf_related_def)
  then show ?thesis
    unfolding related_of_fold by (intro wf_fold_in wf_fold_out)
qed

lemma related_of_ids:
  "set (fst (related_of ident target mems)) = explicit_ids ident target mems"
  by (simp add: related_of_fold ids_fold_in ids_fold_out explicit_ids_edges)

lemma find_Some_id: "find (\<lambda>m. m_id m = k) mems = Some m \<Longrightarrow> m_id m = k \<and> m \<in> set mems"
  by (auto simp: find_Some_iff)

lemma map_filter_ids:
  assumes "\<And>k. F k = None \<longleftrightarrow> find (\<lambda>m. m_id m = k) mems = None"
    and "\<And>k p. F k = Some p \<Longrightarrow> m_id (fst p) = k"
  shows "map (\<lambda>p. m_id (fst p)) (List.map_filter F ks)
           = filter (\<lambda>k. find (\<lambda>m. m_id m = k) mems \<noteq> None) ks"
proof (induction ks)
  case Nil
  show ?case by (simp add: List.map_filter_simps)
next
  case (Cons k ks)
  show ?case
  proof (cases "F k")
    case None
    with assms(1) [of k] Cons.IH show ?thesis by (simp add: List.map_filter_simps)
  next
    case (Some p)
    with assms(1) [of k] have "find (\<lambda>m. m_id m = k) mems \<noteq> None" by simp
    with Some assms(2) [OF Some] Cons.IH show ?thesis by (simp add: List.map_filter_simps)
  qed
qed

lemma relatedWithStrength_ids:
  "map (\<lambda>p. m_id (fst p)) (relatedWithStrength mems sem rel)
     = filter (\<lambda>k. find (\<lambda>m. m_id m = k) mems \<noteq> None) (fst rel)"
  unfolding relatedWithStrength_def
  by (rule map_filter_ids) (auto simp: Let_def dest: find_Some_id split: option.splits)

lemma distinct_map_sort_key:
  "distinct (map f (sort_key k xs)) = distinct (map f xs)"
  by (simp add: distinct_map)

lemma semanticOnly_ids:
  assumes "\<forall>(k, m) \<in> set sem. k = m_id (r_memory m)"
  shows "map m_id (semanticOnly sem ids) = filter (\<lambda>k. k \<notin> set ids) (map fst sem)"
  using assms by (induction sem) (auto simp: semanticOnly_def)

lemma semanticOnly_subset: "set (semanticOnly sem ids) \<subseteq> (\<lambda>p. r_memory (snd p)) ` set sem"
  by (force simp: semanticOnly_def)

lemma semantic_map_keyed: "\<forall>(k, m) \<in> set (semantic_map sims). k = m_id (r_memory m) \<and> m \<in> set sims"
  using Map_new_entries [of "map (\<lambda>m. (m_id (r_memory m), m)) sims"]
  by (auto simp: semantic_map_def)

lemma semantic_map_keys: "set (map fst (semantic_map sims)) = (\<lambda>m. m_id (r_memory m)) ` set sims"
  using Map_new_key_set [of "map (\<lambda>m. (m_id (r_memory m), m)) sims"]
  by (simp add: semantic_map_def image_image)

lemma findSimilarMemories_never_throws:
  "\<exists>res. findSimilarMemories env content limit minSimilarity vs = Inr res"
  using findSimilarMemories_cases [of env content limit minSimilarity vs] by blast

lemma getRelatedMemories_found:
  assumes "find (\<lambda>m. m_id m = ident) (state_memories app) = Some target"
    and "findSimilarMemories env (m_content target) default_limit default_minSimilarity
           (vectorStore app) = Inr sims"
  shows "getRelatedMemories env ident app
           = Inr (map fst (js_sort (\<lambda>a b. snd b - snd a)
                             (relatedWithStrength (state_memories app) (semantic_map sims)
                                (related_of ident target (state_memories app))))
                  @ semanticOnly (semantic_map sims)
                      (fst (related_of ident target (state_memories app))))"
  using assms by (simp add: getRelatedMemories_def Let_def semantic_map_def related_of_def)

lemma ranked_ids:
  "map m_id (map fst (js_sort (\<lambda>a b. snd b - snd a) (relatedWithStrength mems sem rel)))
     = map (\<lambda>p. m_id (fst p)) (sort_key (\<lambda>p. - snd p) (relatedWithStrength mems sem rel))"
  by (simp add: js_sort_desc comp_def)

lemma ranked_distinct:
  assumes "wf_related rel"
  shows "distinct (map m_id (map fst (js_sort (\<lambda>a b. snd b - snd a)
                                        (relatedWithStrength mems sem rel))))"
proof -
  from assms have "distinct (fst rel)" unfolding wf_related_def by blast
  then have "distinct (map (\<lambda>p. m_id (fst p)) (relatedWithStrength mems sem rel))"
    by (simp add: relatedWithStrength_ids)
  then show ?thesis
    by (simp only: ranked_ids distinct_map_sort_key)
qed

lemma ranked_id_set:
  "set (map m_id (map fst (js_sort (\<lambda>a b. snd b - snd a) (relatedWithStrength mems sem rel))))
     = {k \<in> set (fst rel). find (\<lambda>m. m_id m = k) mems \<noteq> None}"
proof -
  have "set (map (\<lambda>p. m_id (fst p)) (sort_key (\<lambda>p. - snd p) (relatedWithStrength mems sem rel)))
          = set (map (\<lambda>p. m_id (fst p)) (relatedWithStrength mems sem rel))"
    by simp
  then show ?thesis
    by (simp only: ranked_ids relatedWithStrength_ids set_filter)
qed

text \<open>
  Claim C10, amended. \<open>getRelatedMemories\<close> always returns a list in which no id occurs
  twice. When the target is found, the list is the sorted part followed by the appended part:
  the sorted part has pairwise distinct ids, all of them ids of candidates with an explicit
  edge, and the appended part consists of the semantic matches whose ids are exactly the ids
  of semantic matches that have no explicit edge in either direction. When every candidate
  with an explicit edge is a memory of the store, these are exactly the semantic matches whose
  ids are not in the sorted part.
\<close>

theorem getRelatedMemories_distinct:
  "\<exists>res. getRelatedMemories env ident app = Inr res
     \<and> distinct (map m_id res)
     \<and> (\<forall>target sims.
           find (\<lambda>m. m_id m = ident) (state_memories app) = Some target
           \<and> findSimilarMemories env (m_content target) default_limit default_minSimilarity
                (vectorStore app) = Inr sims
           \<longrightarrow> (\<exists>ranked appended.
                  res = ranked @ appended
                  \<and> distinct (map m_id ranked)
                  \<and> set (map m_id ranked) \<subseteq> explicit_ids ident target (state_memories app)
                  \<and> set appended \<subseteq> r_memory ` set sims
                  \<and> set (map m_id appended)
                      = (\<lambda>r. m_id (r_memory r)) ` set sims
                          - explicit_ids ident target (state_memories app)
                  \<and> (explicit_ids ident target (state_memories app)
                        \<subseteq> m_id ` set (state_memories app)
                      \<longrightarrow> set (map m_id appended)
                            = (\<lambda>r. m_id (r_memory r)) ` set sims - set (map m_id ranked))))"
proof (cases "find (\<lambda>m. m_id m = ident) (state_memories app)")
  case None
  then have "getRelatedMemories env ident app = Inr []"
    by (simp add: getRelatedMemories_def)
  with None show ?thesis by simp
next
  case (Some target)
  obtain sims where sims:
    "findSimilarMemories env (m_content target) default_limit default_minSimilarity
       (vectorStore app) = Inr sims"
    using findSimilarMemories_never_throws by blast
  let ?mems = "state_memories app"
  let ?rel = "related_of ident target ?mems"
  let ?sem = "semantic_map sims"
  let ?ranked = "map fst (js_sort (\<lambda>a b. snd b - snd a) (relatedWithStrength ?mems ?sem ?rel))"
  let ?appended = "semanticOnly ?sem (fst ?rel)"
  have res: "getRelatedMemories env ident app = Inr (?ranked @ ?appended)"
    by (rule getRelatedMemories_found [OF Some sims])
  have keyed: "\<forall>(k, m) \<in> set ?sem. k = m_id (r_memory m)"
    using semantic_map_keyed [of sims] by auto
  have d1: "distinct (map m_id ?ranked)"
    by (rule ranked_distinct [OF related_of_wf])
  have s1: "set (map m_id ?ranked) \<subseteq> explicit_ids ident target ?mems"
    by (simp only: ranked_id_set related_of_ids) blast
  have ids2: "map m_id ?appended = filter (\<lambda>k. k \<notin> set (fst ?rel)) (map fst ?sem)"
    by (rule semanticOnly_ids [OF keyed])
  have "distinct (map fst ?sem)"
    unfolding semantic_map_def by (rule Map_new_keys)
  then have d2: "distinct (map m_id ?appended)"
    unfolding ids2 by (rule distinct_filter)
  have s2: "set (map m_id ?appended)
              = (\<lambda>r. m_id (r_memory r)) ` set sims - explicit_ids ident target ?mems"
    by (simp only: ids2 set_filter semantic_map_keys related_of_ids) blast
  have sub: "set ?appended \<subseteq> r_memory ` set sims"
  proof
    fix m
    assume "m \<in> set ?appended"
    with semanticOnly_subset [of ?sem "fst ?rel"]
    obtain p where p: "p \<in> set ?sem" "m = r_memory (snd p)" by blast
    obtain k r where kr: "p = (k, r)" by (cases p)
    from p(1) semantic_map_keyed [of sims] have "r \<in> set sims"
      unfolding kr by blast
    with p(2) show "m \<in> r_memory ` set sims"
      unfolding kr by simp
  qed
  have s3: "explicit_ids ident target ?mems \<subseteq> m_id ` set ?mems
              \<longrightarrow> set (map m_id ?appended)
                    = (\<lambda>r. m_id (r_memory r)) ` set sims - set (map m_id ?ranked)"
  proof
    assume all: "explicit_ids ident target ?mems \<subseteq> m_id ` set ?mems"
    have "find (\<lambda>m. m_id m = k) ?mems \<noteq> None" if "k \<in> explicit_ids ident target ?mems" for k
    proof -
      from that all obtain m where "m \<in> set ?mems" "m_id m = k" by blast
      then show ?thesis by (auto simp: find_None_iff)
    qed
    then have "{k \<in> explicit_ids ident target ?mems. find (\<lambda>m. m_id m = k) ?mems \<noteq> None}
                 = explicit_ids ident target ?mems"
      by blast
    then have "set (map m_id ?ranked) = explicit_ids ident target ?mems"
      by (simp only: ranked_id_set related_of_ids)
    with s2 show "set (map m_id ?appended)
                    = (\<lambda>r. m_id (r_memory r)) ` set sims - set (map m_id ?ranked)"
      by (simp only:)
  qed
  have disj: "set (map m_id ?ranked) \<inter> set (map m_id ?appended) = {}"
    using s1 s2 by blast
  have d: "distinct (map m_id (?ranked @ ?appended))"
    by (simp only: map_append distinct_append d1 d2 disj simp_thms)
  show ?thesis
  proof (rule exI [of _ "?ranked @ ?appended"], intro conjI allI impI)
    show "getRelatedMemories env ident app = Inr (?ranked @ ?appended)" by (rule res)
    show "distinct (map m_id (?ranked @ ?appended))" by (rule d)
  next
    fix target' sims'
    assume a: "find (\<lambda>m. m_id m = ident) (state_memories app) = Some target'
           \<and> findSimilarMemories env (m_content target') default_limit default_minSimilarity
                (vectorStore app) = Inr sims'"
    with Some have t: "target' = target" by simp
    with a sims have s: "sims' = sims" by simp
    show "\<exists>ranked appended.
            ?ranked @ ?appended = ranked @ appended
            \<and> distinct (map m_id ranked)
            \<and> set (map m_id ranked) \<subseteq> explicit_ids ident target' (state_memories app)
            \<and> set appended \<subseteq> r_memory ` set sims'
            \<and> set (map m_id appended)
                = (\<lambda>r. m_id (r_memory r)) ` set sims'
                    - explicit_ids ident target' (state_memories app)
            \<and> (explicit_ids ident target' (state_memories app)
                  \<subseteq> m_id ` set (state_memories app)
                \<longrightarrow> set (map m_id appended)
                      = (\<lambda>r. m_id (r_memory r)) ` set sims' - set (map m_id ranked))"
      unfolding t s
      by (rule exI [of _ ?ranked], rule exI [of _ ?appended])
         (intro conjI refl d1 s1 sub s2 s3)
  qed
qed

lemma outgoing_strengths_edges:
  "outgoing_strengths target k = map snd (filter (\<lambda>e. fst e = k) (outgoing_edges target))"
  by (simp add: outgoing_strengths_def outgoing_edges_def filter_map comp_def)

lemma incoming_strengths_edges:
  "incoming_strengths ident mems k = map snd (filter (\<lambda>e. fst e = k) (incoming_edges ident mems))"
proof (induction mems)
  case Nil
  show ?case by (simp add: incoming_strengths_def incoming_edges_def)
next
  case (Cons m mems)
  have "map snd (filter (\<lambda>e. fst e = k)
                  (map (\<lambda>c. (m_id m, c_strength c))
                     (filter (\<lambda>c. c_targetId c = ident) (m_connections m))))
        = (if m_id m = k
           then map c_strength (filter (\<lambda>c. c_targetId c = ident) (m_connections m))
           else [])"
    by (simp add: filter_map comp_def)
  with Cons.IH show ?case
    by (simp add: incoming_strengths_def incoming_edges_def)
qed

lemma value_fold_in:
  "Map_get (snd (fold step_in es rel)) k
     = foldl (\<lambda>v s. Some (max s (or_number v 0))) (Map_get (snd rel) k)
         (map snd (filter (\<lambda>e. fst e = k) es))"
  by (induction es arbitrary: rel) (simp_all add: step_in_def Map_get_Map_set)

lemma fold_out_distinct:
  "distinct (map fst (strs @ es)) \<Longrightarrow>
   fold step_out es (map fst strs, strs) = (map fst (strs @ es), strs @ es)"
proof (induction es arbitrary: strs)
  case Nil
  show ?case by simp
next
  case (Cons e es)
  from Cons.prems have fresh: "fst e \<notin> fst ` set strs" by auto
  then have 1: "Map_set (fst e) (snd e) strs = strs @ [e]"
    by (simp add: Map_set_fresh)
  from fresh have 2: "Set_add (fst e) (map fst strs) = map fst (strs @ [e])"
    by (simp add: Set_add_def)
  from Cons.prems have "distinct (map fst ((strs @ [e]) @ es))" by simp
  from Cons.IH [OF this] show ?case
    by (simp add: step_out_def 1 2 del: map_append)
qed

lemma map_of_distinct_filter:
  "distinct (map fst es) \<Longrightarrow>
   map snd (filter (\<lambda>e. fst e = k) es) = (case map_of es k of None \<Rightarrow> [] | Some s \<Rightarrow> [s])"
proof (induction es)
  case Nil
  show ?case by simp
next
  case (Cons e es)
  show ?case
  proof (cases "fst e = k")
    case True
    with Cons.prems have "k \<notin> fst ` set es" by auto
    then have "filter (\<lambda>e. fst e = k) es = []"
      by (auto simp: filter_empty_conv)
    with True show ?thesis by (cases e) simp
  next
    case False
    with Cons show ?thesis by (cases e) auto
  qed
qed

lemma or_number_Some: "or_number (Some x) 0 = (x :: real)"
  by (simp add: or_number_def)

lemma or_foldl_max:
  "or_number (foldl (\<lambda>v s. Some (max s (or_number v 0))) v0 ss) (0 :: real)
     = fold max ss (or_number v0 0)"
  by (induction ss arbitrary: v0) (simp_all add: or_number_Some)

lemma fold_max_Max: "fold max ss (a :: real) = Max (set (a # ss))"
  by (simp only: Max.set_eq_fold)

lemma related_of_strength:
  assumes dist: "distinct (map c_targetId (m_connections target))"
    and k: "k \<in> explicit_ids ident target mems"
    and sem: "0 \<le> sem"
  shows "max (or_number (Map_get (snd (related_of ident target mems)) k) 0) sem
           = max (explicitStrength ident target mems k) sem"
proof -
  let ?oe = "outgoing_edges target"
  let ?ie = "incoming_edges ident mems"
  let ?ins = "incoming_strengths ident mems k"
  from dist have d: "distinct (map fst ([] @ ?oe))"
    by (simp add: outgoing_edges_def comp_def)
  have rel0: "fold step_out ?oe ([], []) = (map fst ?oe, ?oe)"
    using fold_out_distinct [OF d] by simp
  have "Map_get (snd (related_of ident target mems)) k
          = foldl (\<lambda>v s. Some (max s (or_number v 0))) (map_of ?oe k) ?ins"
    unfolding related_of_fold rel0 value_fold_in
    by (simp add: Map_get_def incoming_strengths_edges)
  then have code: "or_number (Map_get (snd (related_of ident target mems)) k) 0
                     = fold max ?ins (or_number (map_of ?oe k) 0)"
    by (simp only: or_foldl_max)
  from dist have out: "outgoing_strengths target k
                         = (case map_of ?oe k of None \<Rightarrow> [] | Some s \<Rightarrow> [s])"
    unfolding outgoing_strengths_edges
    by (intro map_of_distinct_filter) (simp add: outgoing_edges_def comp_def)
  show ?thesis
  proof (cases "map_of ?oe k")
    case (Some s)
    then have "fold max ?ins (or_number (map_of ?oe k) 0) = Max (set (s # ?ins))"
      by (simp only: or_number_Some fold_max_Max)
    with Some out show ?thesis
      by (simp add: code explicitStrength_def)
  next
    case None
    then have "k \<notin> fst ` set ?oe" by (simp add: map_of_eq_None_iff)
    with k have "k \<in> fst ` set ?ie" by (simp add: explicit_ids_edges)
    then have "filter (\<lambda>e. fst e = k) ?ie \<noteq> []"
      by (auto simp: filter_empty_conv)
    then have ne: "?ins \<noteq> []" by (simp add: incoming_strengths_edges)
    from None have "fold max ?ins (or_number (map_of ?oe k) 0) = Max (set (0 # ?ins))"
      by (simp only: fold_max_Max) (simp add: or_number_def)
    also from ne have "\<dots> = max 0 (Max (set ?ins))" by simp
    finally have "or_number (Map_get (snd (related_of ident target mems)) k) 0
                    = max 0 (Max (set ?ins))"
      by (simp only: code)
    moreover from None out have "explicitStrength ident target mems k = Max (set ?ins)"
      by (simp add: explicitStrength_def)
    ultimately show ?thesis using sem by simp
  qed
qed

lemma map_of_keyed: "map_of (map (\<lambda>x. (f x, x)) xs) k = find (\<lambda>x. f x = k) xs"
  by (induction xs) auto

lemma semantic_map_distinct:
  "distinct (map (\<lambda>r. m_id (r_memory r)) sims) \<Longrightarrow>
   semantic_map sims = map (\<lambda>m. (m_id (r_memory m), m)) sims"
  unfolding semantic_map_def by (rule Map_new_distinct) (simp add: comp_def)

lemma semantic_strength_code:
  "distinct (map (\<lambda>r. m_id (r_memory r)) sims) \<Longrightarrow>
   (case Map_get (semantic_map sims) k of
      Some semanticMatch \<Rightarrow> r_similarity semanticMatch
    | None \<Rightarrow> 0) = semanticStrength sims k"
  by (simp add: semantic_map_distinct Map_get_def map_of_keyed semanticStrength_def)

lemma semanticOnly_distinct:
  "distinct (map (\<lambda>r. m_id (r_memory r)) sims) \<Longrightarrow>
   semanticOnly (semantic_map sims) ids
     = map r_memory (filter (\<lambda>r. m_id (r_memory r) \<notin> set ids) sims)"
  by (simp add: semantic_map_distinct semanticOnly_def filter_map comp_def)

lemma all_matches_distinct:
  assumes "distinct (map s_id (memories vs))"
  shows "distinct (map (\<lambda>r. m_id (r_memory r)) (all_matches env content vs))"
proof (cases "generateEmbedding env content")
  case (Inl e)
  then show ?thesis by (simp add: all_matches_def)
next
  case (Inr q)
  let ?g = "\<lambda>storedMemory.
               case cosineSimilarity q (s_embedding storedMemory) of
                 Inl e \<Rightarrow> None
               | Inr similarity \<Rightarrow>
                   Some \<lparr>r_memory = toMemory storedMemory, r_similarity = similarity\<rparr>"
  have "distinct (map s_id ms) \<Longrightarrow>
        distinct (map (\<lambda>r. m_id (r_memory r)) (List.map_filter ?g ms))
        \<and> (\<lambda>r. m_id (r_memory r)) ` set (List.map_filter ?g ms) \<subseteq> s_id ` set ms" for ms
  proof (induction ms)
    case Nil
    show ?case by (simp add: List.map_filter_simps)
  next
    case (Cons sm ms)
    then show ?case
      by (cases "cosineSimilarity q (s_embedding sm)")
         (auto simp: List.map_filter_simps toMemory_def)
  qed
  with assms Inr show ?thesis by (simp add: all_matches_def)
qed

lemma ranked_distinct_ids:
  assumes "distinct (map (\<lambda>r. m_id (r_memory r)) ms)"
  shows "distinct (map (\<lambda>r. m_id (r_memory r)) (ranked limit minSimilarity ms))"
proof -
  let ?xs = "sort_key (\<lambda>r. - r_similarity r) (filter (\<lambda>r. minSimilarity \<le> r_similarity r) ms)"
  obtain n where n: "slice0 limit ?xs = take n ?xs"
    using slice0_take by blast
  from assms have "distinct (map (\<lambda>r. m_id (r_memory r))
                               (filter (\<lambda>r. minSimilarity \<le> r_similarity r) ms))"
    by (rule distinct_map_filter)
  then have "distinct (map (\<lambda>r. m_id (r_memory r)) ?xs)"
    by (simp only: distinct_map_sort_key)
  then have "distinct (take n (map (\<lambda>r. m_id (r_memory r)) ?xs))"
    by (rule distinct_take)
  then show ?thesis
    by (simp add: ranked_def n take_map)
qed

lemma similar_properties:
  assumes "findSimilarMemories env content limit minSimilarity vs = Inr sims"
  shows "(\<forall>r \<in> set sims. minSimilarity \<le> r_similarity r)
         \<and> sorted_wrt (\<lambda>a b. r_similarity b \<le> r_similarity a) sims
         \<and> (distinct (map s_id (memories vs)) \<longrightarrow> distinct (map (\<lambda>r. m_id (r_memory r)) sims))"
proof -
  from findSimilarMemories_cases [of env content limit minSimilarity vs] assms
  consider "sims = []" | "sims = ranked limit minSimilarity (all_matches env content vs)"
    by auto
  then show ?thesis
  proof cases
    case 1
    then show ?thesis by simp
  next
    case 2
    show ?thesis
      unfolding 2
      using ranked_above_floor ranked_sorted ranked_distinct_ids all_matches_distinct
      by blast
  qed
qed

lemma set_map_filter_conv: "set (List.map_filter f xs) = {y. \<exists>x \<in> set xs. f x = Some y}"
  by (induction xs) (auto simp: List.map_filter_simps split: option.splits)

lemma set_map_filter_find:
  "set (List.map_filter
          (\<lambda>k. case find (\<lambda>m. m_id m = k) mems of
                 None \<Rightarrow> None
               | Some memory \<Rightarrow> Some (memory, g k)) ks)
     = {p. \<exists>k \<in> set ks. find (\<lambda>m. m_id m = k) mems = Some (fst p) \<and> snd p = g k}"
  unfolding set_map_filter_conv
  by (auto split: option.splits)

lemma relatedWithStrength_set:
  "set (relatedWithStrength mems sem rel)
     = {p. \<exists>k \<in> set (fst rel).
             find (\<lambda>m. m_id m = k) mems = Some (fst p)
             \<and> snd p = max (or_number (Map_get (snd rel) k) 0)
                          (case Map_get sem k of
                             Some semanticMatch \<Rightarrow> r_similarity semanticMatch
                           | None \<Rightarrow> 0)}"
  unfolding relatedWithStrength_def Let_def
  by (rule set_map_filter_find)

lemma semanticStrength_floor:
  assumes "\<forall>r \<in> set sims. lowest \<le> r_similarity r"
  shows "semanticStrength sims k = 0 \<or> lowest \<le> semanticStrength sims k"
proof (cases "find (\<lambda>r. m_id (r_memory r) = k) sims")
  case None
  then show ?thesis by (simp add: semanticStrength_def)
next
  case (Some r)
  then have "r \<in> set sims" by (auto simp: find_Some_iff)
  with assms Some show ?thesis by (simp add: semanticStrength_def)
qed

text \<open>
  Claim C1, amended. Let the target be in the memory collection, with at most one connection
  per target id, and let the ids in the vector store be distinct. Then the result of
  \<open>getRelatedMemories\<close> is a sorted part followed by an appended part. The sorted part holds
  the memories found for the candidates with an explicit edge in either direction, in
  descending order of combined strength, the maximum of explicit and semantic strength; the
  semantic strength is the similarity reported by \<open>findSimilarMemories\<close> on the target's
  content (limit 5, floor 0.7), and is either 0 or at least the floor. The appended part holds
  the semantic matches without an explicit edge, in descending order of similarity.
\<close>

theorem getRelatedMemories_ranking:
  assumes target: "find (\<lambda>m. m_id m = ident) (state_memories app) = Some target"
    and edges: "distinct (map c_targetId (m_connections target))"
    and store: "distinct (map s_id (memories (vectorStore app)))"
  shows "\<exists>sims ranked.
           findSimilarMemories env (m_content target) default_limit default_minSimilarity
             (vectorStore app) = Inr sims
           \<and> getRelatedMemories env ident app
               = Inr (ranked
                      @ map r_memory
                          (filter (\<lambda>r. m_id (r_memory r)
                                         \<notin> explicit_ids ident target (state_memories app))
                             sims))
           \<and> set ranked
               = {m. \<exists>k \<in> explicit_ids ident target (state_memories app).
                       find (\<lambda>m. m_id m = k) (state_memories app) = Some m}
           \<and> sorted_wrt
                (\<lambda>a b. combinedStrength ident target (state_memories app) sims (m_id b)
                         \<le> combinedStrength ident target (state_memories app) sims (m_id a))
                ranked
           \<and> (\<forall>k. semanticStrength sims k = 0 \<or> default_minSimilarity \<le> semanticStrength sims k)
           \<and> sorted_wrt (\<lambda>a b. r_similarity b \<le> r_similarity a)
                (filter (\<lambda>r. m_id (r_memory r)
                               \<notin> explicit_ids ident target (state_memories app))
                   sims)"
proof -
  let ?mems = "state_memories app"
  obtain sims where sims:
    "findSimilarMemories env (m_content target) default_limit default_minSimilarity
       (vectorStore app) = Inr sims"
    using findSimilarMemories_never_throws by blast
  note props = similar_properties [OF sims]
  from props have floor: "\<forall>r \<in> set sims. default_minSimilarity \<le> r_similarity r" by blast
  from props have sorted_sims: "sorted_wrt (\<lambda>a b. r_similarity b \<le> r_similarity a) sims"
    by blast
  from props store have dist: "distinct (map (\<lambda>r. m_id (r_memory r)) sims)" by blast
  let ?rel = "related_of ident target ?mems"
  let ?sem = "semantic_map sims"
  let ?pairs = "relatedWithStrength ?mems ?sem ?rel"
  let ?sorted = "sort_key (\<lambda>p. - snd p) ?pairs"
  let ?ranked = "map fst ?sorted"
  let ?C = "combinedStrength ident target ?mems sims"
  have sem_floor: "semanticStrength sims k = 0 \<or> default_minSimilarity \<le> semanticStrength sims k"
    for k
    by (rule semanticStrength_floor [OF floor])
  have sem_nonneg: "0 \<le> semanticStrength sims k" for k
    using sem_floor [of k] by (auto simp: default_minSimilarity_def)
  have res: "getRelatedMemories env ident app
               = Inr (?ranked
                      @ map r_memory
                          (filter (\<lambda>r. m_id (r_memory r) \<notin> explicit_ids ident target ?mems)
                             sims))"
    by (simp only: getRelatedMemories_found [OF target sims] js_sort_desc
        semanticOnly_distinct [OF dist] related_of_ids)
  have pair: "find (\<lambda>m. m_id m = m_id (fst p)) ?mems = Some (fst p)
              \<and> m_id (fst p) \<in> explicit_ids ident target ?mems
              \<and> snd p = ?C (m_id (fst p))" if "p \<in> set ?pairs" for p
  proof -
    from that obtain k where k: "k \<in> set (fst ?rel)"
      and f: "find (\<lambda>m. m_id m = k) ?mems = Some (fst p)"
      and s: "snd p = max (or_number (Map_get (snd ?rel) k) 0)
                          (case Map_get ?sem k of
                             Some semanticMatch \<Rightarrow> r_similarity semanticMatch
                           | None \<Rightarrow> 0)"
      unfolding relatedWithStrength_set by blast
    from find_Some_id [OF f] have id: "m_id (fst p) = k" by blast
    from k have k': "k \<in> explicit_ids ident target ?mems" by (simp only: related_of_ids)
    have "snd p = max (or_number (Map_get (snd ?rel) k) 0) (semanticStrength sims k)"
      by (simp only: s semantic_strength_code [OF dist])
    also have "\<dots> = ?C k"
      unfolding combinedStrength_def
      by (rule related_of_strength [OF edges k' sem_nonneg])
    finally show ?thesis using f k' by (simp add: id)
  qed
  have sr: "set ?ranked = fst ` set ?pairs"
    by (simp only: set_map set_sort)
  have set_ranked: "set ?ranked
               = {m. \<exists>k \<in> explicit_ids ident target ?mems.
                       find (\<lambda>m. m_id m = k) ?mems = Some m}"
    unfolding sr
  proof (intro equalityI subsetI)
    fix m assume "m \<in> fst ` set ?pairs"
    then obtain p where p: "p \<in> set ?pairs" and m: "m = fst p" by blast
    from pair [OF p] show "m \<in> {m. \<exists>k \<in> explicit_ids ident target ?mems.
                       find (\<lambda>m. m_id m = k) ?mems = Some m}"
      unfolding m by blast
  next
    fix m assume "m \<in> {m. \<exists>k \<in> explicit_ids ident target ?mems.
                       find (\<lambda>m. m_id m = k) ?mems = Some m}"
    then obtain k where k: "k \<in> explicit_ids ident target ?mems"
      and f: "find (\<lambda>m. m_id m = k) ?mems = Some m"
      by blast
    from k have k': "k \<in> set (fst ?rel)" by (simp only: related_of_ids)
    let ?s = "max (or_number (Map_get (snd ?rel) k) 0)
                          (case Map_get ?sem k of
                             Some semanticMatch \<Rightarrow> r_similarity semanticMatch
                           | None \<Rightarrow> 0)"
    have "(m, ?s) \<in> set ?pairs"
      unfolding relatedWithStrength_set mem_Collect_eq fst_conv snd_conv
      using k' f by blast
    then show "m \<in> fst ` set ?pairs"
      by (rule image_eqI [rotated]) simp
  qed
  have "sorted (map (\<lambda>p. - snd p) ?sorted)"
    by (rule sorted_sort_key)
  then have "sorted_wrt (\<lambda>a b. snd b \<le> snd a) ?sorted"
    by (simp add: sorted_map)
  then have "sorted_wrt (\<lambda>a b. ?C (m_id (fst b)) \<le> ?C (m_id (fst a))) ?sorted"
  proof (rule sorted_wrt_mono_rel [rotated])
    fix a b assume a: "a \<in> set ?sorted" and b: "b \<in> set ?sorted" and le: "snd b \<le> snd a"
    from a have "a \<in> set ?pairs" by (simp only: set_sort)
    from pair [OF this] have sa: "snd a = ?C (m_id (fst a))" by blast
    from b have "b \<in> set ?pairs" by (simp only: set_sort)
    from pair [OF this] have sb: "snd b = ?C (m_id (fst b))" by blast
    from le show "?C (m_id (fst b)) \<le> ?C (m_id (fst a))"
      unfolding sa sb .
  qed
  then have sorted_ranked: "sorted_wrt (\<lambda>a b. ?C (m_id b) \<le> ?C (m_id a)) ?ranked"
    by (simp add: sorted_wrt_map)
  have sorted_app: "sorted_wrt (\<lambda>a b. r_similarity b \<le> r_similarity a)
                (filter (\<lambda>r. m_id (r_memory r) \<notin> explicit_ids ident target ?mems) sims)"
    using sorted_sims by (rule sorted_wrt_filter)
  show ?thesis
    by (rule exI [of _ sims], rule exI [of _ ?ranked])
       (intro conjI allI sims res set_ranked sorted_ranked sem_floor sorted_app)
qed

lemma related_similar:
  "findSimilarMemories (demo_env 10) ''cat'' default_limit default_minSimilarity
     (vectorStore related_app)
   = Inr [\<lparr>r_memory = toMemory (demo_stored ''A'' ''cat'' [1, 0]), r_similarity = 1\<rparr>,
          \<lparr>r_memory = toMemory (demo_stored ''D'' ''cat'' [1, 0]), r_similarity = 1\<rparr>,
          \<lparr>r_memory = toMemory (demo_stored ''K'' ''kitten'' [4 / 5, 3 / 5]),
            r_similarity = 4 / 5\<rparr>]"
  by (simp add: findSimilarMemories_def demo_env_def demo_embedding_def related_app_def
      demo_stored_def toStoredMemory_def cosineSimilarity_def js_sort_def slice0_def
      default_limit_def default_minSimilarity_def)

lemma related_run:
  "getRelatedMemories (demo_env 10) ''A'' related_app
   = Inr [demo_memory ''B'' ''dog'' [],
          demo_memory ''K'' ''kitten'' [demo_edge ''A'' (1 / 5)],
          demo_memory ''C'' ''dog'' [demo_edge ''A'' (1 / 2)],
          toMemory (demo_stored ''A'' ''cat'' [1, 0]),
          toMemory (demo_stored ''D'' ''cat'' [1, 0])]"
proof -
  have target: "find (\<lambda>m. m_id m = ''A'') (state_memories related_app)
                  = Some (demo_memory ''A'' ''cat'' [demo_edge ''B'' (9 / 10)])"
    by (simp add: related_app_def demo_memory_def)
  have sims: "findSimilarMemories (demo_env 10)
                (m_content (demo_memory ''A'' ''cat'' [demo_edge ''B'' (9 / 10)]))
                default_limit default_minSimilarity (vectorStore related_app)
   = Inr [\<lparr>r_memory = toMemory (demo_stored ''A'' ''cat'' [1, 0]), r_similarity = 1\<rparr>,
          \<lparr>r_memory = toMemory (demo_stored ''D'' ''cat'' [1, 0]), r_similarity = 1\<rparr>,
          \<lparr>r_memory = toMemory (demo_stored ''K'' ''kitten'' [4 / 5, 3 / 5]),
            r_similarity = 4 / 5\<rparr>]"
    using related_similar by (simp add: demo_memory_def)
  show ?thesis
    unfolding getRelatedMemories_found [OF target sims]
    by (simp add: related_app_def demo_memory_def demo_edge_def demo_stored_def
        toStoredMemory_def toMemory_def related_of_def collect_outgoing_def collect_incoming_def
        semantic_map_def Map_new_def Set_add_def Map_get_def or_number_def
        relatedWithStrength_def List.map_filter_simps semanticOnly_def js_sort_def)
qed

lemma duplicate_run:
  "getRelatedMemories (demo_env 10) ''A'' duplicate_app
   = Inr [demo_memory ''C'' ''dog'' [demo_edge ''A'' (1 / 2)], demo_memory ''B'' ''dog'' []]"
  by (simp add: getRelatedMemories_def findSimilarMemories_def demo_env_def demo_embedding_def
      duplicate_app_def demo_memory_def demo_edge_def
      collect_outgoing_def collect_incoming_def
      Map_new_def Set_add_def Map_get_def or_number_def slice0_def
      relatedWithStrength_def List.map_filter_simps semanticOnly_def js_sort_def)

lemma duplicate_strengths:
  "combinedStrength ''A''
     (demo_memory ''A'' ''cat'' [demo_edge ''B'' (9 / 10), demo_edge ''B'' (3 / 10)])
     (state_memories duplicate_app) [] ''B'' = 9 / 10
   \<and> combinedStrength ''A''
     (demo_memory ''A'' ''cat'' [demo_edge ''B'' (9 / 10), demo_edge ''B'' (3 / 10)])
     (state_memories duplicate_app) [] ''C'' = 1 / 2"
  by (simp add: combinedStrength_def explicitStrength_def semanticStrength_def
      outgoing_strengths_def incoming_strengths_def duplicate_app_def demo_memory_def
      demo_edge_def)

theorem getRelatedMemories_distinct_witness:
  "find (\<lambda>m. m_id m = ''A'') (state_memories related_app)
     = Some (demo_memory ''A'' ''cat'' [demo_edge ''B'' (9 / 10)])
   \<and> findSimilarMemories (demo_env 10)
         (m_content (demo_memory ''A'' ''cat'' [demo_edge ''B'' (9 / 10)]))
         default_limit default_minSimilarity (vectorStore related_app)
       = Inr [\<lparr>r_memory = toMemory (demo_stored ''A'' ''cat'' [1, 0]), r_similarity = 1\<rparr>,
              \<lparr>r_memory = toMemory (demo_stored ''D'' ''cat'' [1, 0]), r_similarity = 1\<rparr>,
              \<lparr>r_memory = toMemory (demo_stored ''K'' ''kitten'' [4 / 5, 3 / 5]),
                r_similarity = 4 / 5\<rparr>]
   \<and> explicit_ids ''A'' (demo_memory ''A'' ''cat'' [demo_edge ''B'' (9 / 10)])
         (state_memories related_app) = {''B'', ''C'', ''K''}
   \<and> m_id ` set (state_memories related_app) = {''A'', ''B'', ''C'', ''K''}
   \<and> getRelatedMemories (demo_env 10) ''A'' related_app
       = Inr ([demo_memory ''B'' ''dog'' [],
               demo_memory ''K'' ''kitten'' [demo_edge ''A'' (1 / 5)],
               demo_memory ''C'' ''dog'' [demo_edge ''A'' (1 / 2)]]
              @ [toMemory (demo_stored ''A'' ''cat'' [1, 0]),
                 toMemory (demo_stored ''D'' ''cat'' [1, 0])])
   \<and> distinct (map m_id
        [demo_memory ''B'' ''dog'' [],
         demo_memory ''K'' ''kitten'' [demo_edge ''A'' (1 / 5)],
         demo_memory ''C'' ''dog'' [demo_edge ''A'' (1 / 2)],
         toMemory (demo_stored ''A'' ''cat'' [1, 0]),
         toMemory (demo_stored ''D'' ''cat'' [1, 0])])"
proof -
  have target: "find (\<lambda>m. m_id m = ''A'') (state_memories related_app)
                  = Some (demo_memory ''A'' ''cat'' [demo_edge ''B'' (9 / 10)])"
    by (simp add: related_app_def demo_memory_def)
  have sims: "findSimilarMemories (demo_env 10)
         (m_content (demo_memory ''A'' ''cat'' [demo_edge ''B'' (9 / 10)]))
         default_limit default_minSimilarity (vectorStore related_app)
       = Inr [\<lparr>r_memory = toMemory (demo_stored ''A'' ''cat'' [1, 0]), r_similarity = 1\<rparr>,
              \<lparr>r_memory = toMemory (demo_stored ''D'' ''cat'' [1, 0]), r_similarity = 1\<rparr>,
              \<lparr>r_memory = toMemory (demo_stored ''K'' ''kitten'' [4 / 5, 3 / 5]),
                r_similarity = 4 / 5\<rparr>]"
    using related_similar by (simp add: demo_memory_def)
  have ex: "explicit_ids ''A'' (demo_memory ''A'' ''cat'' [demo_edge ''B'' (9 / 10)])
         (state_memories related_app) = {''B'', ''C'', ''K''}"
    unfolding explicit_ids_edges
    by (auto simp: outgoing_edges_def incoming_edges_def related_app_def demo_memory_def
        demo_edge_def)
  have ids: "m_id ` set (state_memories related_app) = {''A'', ''B'', ''C'', ''K''}"
    by (simp add: related_app_def demo_memory_def)
  from getRelatedMemories_distinct [of "demo_env 10" "''A''" related_app]
  obtain res where res: "getRelatedMemories (demo_env 10) ''A'' related_app = Inr res"
    and d: "distinct (map m_id res)"
    by (elim exE conjE)
  from res have eq: "res = [demo_memory ''B'' ''dog'' [],
         demo_memory ''K'' ''kitten'' [demo_edge ''A'' (1 / 5)],
         demo_memory ''C'' ''dog'' [demo_edge ''A'' (1 / 2)],
         toMemory (demo_stored ''A'' ''cat'' [1, 0]),
         toMemory (demo_stored ''D'' ''cat'' [1, 0])]"
    by (simp only: related_run sum.inject)
  from d have d': "distinct (map m_id
        [demo_memory ''B'' ''dog'' [],
         demo_memory ''K'' ''kitten'' [demo_edge ''A'' (1 / 5)],
         demo_memory ''C'' ''dog'' [demo_edge ''A'' (1 / 2)],
         toMemory (demo_stored ''A'' ''cat'' [1, 0]),
         toMemory (demo_stored ''D'' ''cat'' [1, 0])])"
    unfolding eq .
  have run: "getRelatedMemories (demo_env 10) ''A'' related_app
       = Inr ([demo_memory ''B'' ''dog'' [],
               demo_memory ''K'' ''kitten'' [demo_edge ''A'' (1 / 5)],
               demo_memory ''C'' ''dog'' [demo_edge ''A'' (1 / 2)]]
              @ [toMemory (demo_stored ''A'' ''cat'' [1, 0]),
                 toMemory (demo_stored ''D'' ''cat'' [1, 0])])"
    using related_run by simp
  show ?thesis
    by (intro conjI target sims ex ids run d')
qed

lemma dangling_similar:
  "findSimilarMemories (demo_env 10) ''cat'' default_limit default_minSimilarity
     (vectorStore dangling_app)
   = Inr [\<lparr>r_memory = toMemory (demo_stored ''Z'' ''cat'' [1, 0]), r_similarity = 1\<rparr>]"
  by (simp add: findSimilarMemories_def demo_env_def demo_embedding_def dangling_app_def
      demo_stored_def toStoredMemory_def cosineSimilarity_def js_sort_def slice0_def
      default_limit_def default_minSimilarity_def)

lemma dangling_run: "getRelatedMemories (demo_env 10) ''A'' dangling_app = Inr []"
proof -
  have target: "find (\<lambda>m. m_id m = ''A'') (state_memories dangling_app)
                  = Some (demo_memory ''A'' ''cat'' [demo_edge ''Z'' (9 / 10)])"
    by (simp add: dangling_app_def demo_memory_def)
  have sims: "findSimilarMemories (demo_env 10)
                (m_content (demo_memory ''A'' ''cat'' [demo_edge ''Z'' (9 / 10)]))
                default_limit default_minSimilarity (vectorStore dangling_app)
   = Inr [\<lparr>r_memory = toMemory (demo_stored ''Z'' ''cat'' [1, 0]), r_similarity = 1\<rparr>]"
    using dangling_similar by (simp add: demo_memory_def)
  show ?thesis
    unfolding getRelatedMemories_found [OF target sims]
    by (simp add: dangling_app_def demo_memory_def demo_edge_def demo_stored_def
        toStoredMemory_def toMemory_def related_of_def collect_outgoing_def collect_incoming_def
        semantic_map_def Map_new_def Set_add_def Map_get_def or_number_def
        relatedWithStrength_def List.map_filter_simps semanticOnly_def js_sort_def)
qed

text \<open>
  Claim C10, as stated: the appended matches are exactly the semantic matches whose ids are
  not in the sorted part. With unique memory ids, at a target \<open>A\<close> whose only connection goes to
  an id \<open>Z\<close> that is in the vector store but not among the memories of the store, the sorted part
  is empty (no memory \<open>Z\<close> is found), the semantic match \<open>Z\<close> is not in it, and yet \<open>Z\<close> is not
  appended: the code returns the empty list.
\<close>

theorem getRelatedMemories_distinct_counterexample:
  "distinct (map m_id (state_memories dangling_app))
   \<and> find (\<lambda>m. m_id m = ''A'') (state_memories dangling_app)
       = Some (demo_memory ''A'' ''cat'' [demo_edge ''Z'' (9 / 10)])
   \<and> findSimilarMemories (demo_env 10)
         (m_content (demo_memory ''A'' ''cat'' [demo_edge ''Z'' (9 / 10)]))
         default_limit default_minSimilarity (vectorStore dangling_app)
       = Inr [\<lparr>r_memory = toMemory (demo_stored ''Z'' ''cat'' [1, 0]), r_similarity = 1\<rparr>]
   \<and> m_id (toMemory (demo_stored ''Z'' ''cat'' [1, 0])) = ''Z''
   \<and> getRelatedMemories (demo_env 10) ''A'' dangling_app = Inr []"
  using dangling_similar dangling_run
  by (simp add: dangling_app_def demo_memory_def demo_stored_def toStoredMemory_def
      toMemory_def)

text \<open>
  Claim C1, as stated, at a target with two connections to the same candidate \<open>B\<close>, of
  strengths 0.9 and 0.3, and a memory \<open>C\<close> with a connection of strength 0.5 to the target
  (nothing in the vector store): the maximum over the edges gives \<open>B\<close> the combined strength
  0.9 and \<open>C\<close> 0.5, but the code keeps the strength of the last connection to \<open>B\<close> and returns
  \<open>C\<close> in front of \<open>B\<close>.
\<close>

theorem getRelatedMemories_ranking_counterexample:
  "getRelatedMemories (demo_env 10) ''A'' duplicate_app
     = Inr [demo_memory ''C'' ''dog'' [demo_edge ''A'' (1 / 2)], demo_memory ''B'' ''dog'' []]
   \<and> combinedStrength ''A''
        (demo_memory ''A'' ''cat'' [demo_edge ''B'' (9 / 10), demo_edge ''B'' (3 / 10)])
        (state_memories duplicate_app) [] ''C''
     < combinedStrength ''A''
        (demo_memory ''A'' ''cat'' [demo_edge ''B'' (9 / 10), demo_edge ''B'' (3 / 10)])
        (state_memories duplicate_app) [] ''B''"
  using duplicate_run duplicate_strengths by simp

theorem getRelatedMemories_ranking_witness:
  "find (\<lambda>m. m_id m = ''A'') (state_memories related_app)
     = Some (demo_memory ''A'' ''cat'' [demo_edge ''B'' (9 / 10)])
   \<and> distinct (map c_targetId (m_connections (demo_memory ''A'' ''cat'' [demo_edge ''B'' (9 / 10)])))
   \<and> distinct (map s_id (memories (vectorStore related_app)))
   \<and> getRelatedMemories (demo_env 10) ''A'' related_app
       = Inr ([demo_memory ''B'' ''dog'' [],
               demo_memory ''K'' ''kitten'' [demo_edge ''A'' (1 / 5)],
               demo_memory ''C'' ''dog'' [demo_edge ''A'' (1 / 2)]]
              @ [toMemory (demo_stored ''A'' ''cat'' [1, 0]),
                 toMemory (demo_stored ''D'' ''cat'' [1, 0])])
   \<and> (\<exists>sims ranked.
         getRelatedMemories (demo_env 10) ''A'' related_app
           = Inr (ranked
                  @ map r_memory
                      (filter (\<lambda>r. m_id (r_memory r)
                                     \<notin> explicit_ids ''A''
                                          (demo_memory ''A'' ''cat'' [demo_edge ''B'' (9 / 10)])
                                          (state_memories related_app))
                         sims))
         \<and> sorted_wrt
              (\<lambda>a b. combinedStrength ''A''
                        (demo_memory ''A'' ''cat'' [demo_edge ''B'' (9 / 10)])
                        (state_memories related_app) sims (m_id b)
                       \<le> combinedStrength ''A''
                            (demo_memory ''A'' ''cat'' [demo_edge ''B'' (9 / 10)])
                            (state_memories related_app) sims (m_id a))
              ranked)"
proof -
  have target: "find (\<lambda>m. m_id m = ''A'') (state_memories related_app)
                  = Some (demo_memory ''A'' ''cat'' [demo_edge ''B'' (9 / 10)])"
    by (simp add: related_app_def demo_memory_def)
  have edges: "distinct (map c_targetId
                 (m_connections (demo_memory ''A'' ''cat'' [demo_edge ''B'' (9 / 10)])))"
    by (simp add: demo_memory_def)
  have store: "distinct (map s_id (memories (vectorStore related_app)))"
    by (simp add: related_app_def demo_stored_def toStoredMemory_def demo_memory_def)
  from getRelatedMemories_ranking [OF target edges store, of "demo_env 10"]
  have "\<exists>sims ranked.
         getRelatedMemories (demo_env 10) ''A'' related_app
           = Inr (ranked
                  @ map r_memory
                      (filter (\<lambda>r. m_id (r_memory r)
                                     \<notin> explicit_ids ''A''
                                          (demo_memory ''A'' ''cat'' [demo_edge ''B'' (9 / 10)])
                                          (state_memories related_app))
                         sims))
         \<and> sorted_wrt
              (\<lambda>a b. combinedStrength ''A''
                        (demo_memory ''A'' ''cat'' [demo_edge ''B'' (9 / 10)])
                        (state_memories related_app) sims (m_id b)
                       \<le> combinedStrength ''A''
                            (demo_memory ''A'' ''cat'' [demo_edge ''B'' (9 / 10)])
                            (state_memories related_app) sims (m_id a))
              ranked"
    by (elim exE conjE) (intro exI conjI)
  with target edges store related_run show ?thesis
    by (simp only: append.simps simp_thms)
qed

section \<open>Extraction\<close>

lemma upserted_Cons:
  "upserted sm (x # ms) = (if s_id x = s_id sm then sm # ms else x # upserted sm ms)"
  by (simp add: upserted_def split: option.splits)

lemma upserted_mem: "sm \<in> set (upserted sm ms)"
  by (induction ms) (simp_all add: upserted_Cons, simp add: upserted_def)

lemma upserted_keeps: "x \<in> set ms \<Longrightarrow> s_id x \<noteq> s_id sm \<Longrightarrow> x \<in> set (upserted sm ms)"
  by (induction ms) (auto simp: upserted_Cons)

lemma VectorStore_addMemory_ok:
  assumes "generateEmbedding env (m_content memory) = Inr v"
  shows "\<exists>st'. VectorStore_addMemory env memory vs
           = (Inr (), \<lparr>memories = upserted (toStoredMemory memory v) (memories vs),
                       storage = st'\<rparr>)"
proof -
  have id: "s_id (toStoredMemory memory v) = m_id memory"
    by (simp add: toStoredMemory_def)
  show ?thesis
    using assms
    by (cases vs; cases "setItem env (storage vs) (upserted (toStoredMemory memory v) (memories vs))")
       (auto simp: VectorStore_addMemory_def saveToStorage_def upserted_def id Let_def
             split: option.splits)
qed

lemma store_memories_ok:
  assumes "\<forall>c \<in> set cs. \<exists>v. generateEmbedding env (cand_content c) = Inr v"
  shows "\<exists>vs'. store_memories svc env i t cs vs = (Inr (), vs')
          \<and> (\<forall>sm \<in> set (memories vs).
                (\<forall>j < length cs. s_id sm \<noteq> randomUUID svc (i + j)) \<longrightarrow> sm \<in> set (memories vs'))
          \<and> (\<forall>j < length cs.
                (\<forall>j' < length cs. j < j' \<longrightarrow> randomUUID svc (i + j') \<noteq> randomUUID svc (i + j)) \<longrightarrow>
                (\<exists>v. generateEmbedding env (cand_content (cs ! j)) = Inr v
                    \<and> toStoredMemory
                         (fullMemory (cs ! j) (randomUUID svc (i + j)) (Date_now svc (t + j))) v
                       \<in> set (memories vs')))"
  using assms
proof (induction cs arbitrary: i t vs)
  case Nil
  show ?case by simp
next
  case (Cons c cs)
  from Cons.prems obtain v where v: "generateEmbedding env (cand_content c) = Inr v"
    by auto
  let ?full = "fullMemory c (randomUUID svc i) (Date_now svc t)"
  let ?sm0 = "toStoredMemory ?full v"
  have id0: "s_id ?sm0 = randomUUID svc i"
    by (simp add: toStoredMemory_def fullMemory_def)
  have "generateEmbedding env (m_content ?full) = Inr v"
    using v by (simp add: fullMemory_def)
  from VectorStore_addMemory_ok [OF this, of vs] obtain st'
    where add: "VectorStore_addMemory env ?full vs
                  = (Inr (), \<lparr>memories = upserted ?sm0 (memories vs), storage = st'\<rparr>)"
    by blast
  let ?vs1 = "\<lparr>memories = upserted ?sm0 (memories vs), storage = st'\<rparr>"
  from Cons.prems have rest: "\<forall>c \<in> set cs. \<exists>v. generateEmbedding env (cand_content c) = Inr v"
    by simp
  from Cons.IH [OF rest, of "Suc i" "Suc t" ?vs1] obtain vs'
    where run: "store_memories svc env (Suc i) (Suc t) cs ?vs1 = (Inr (), vs')"
      and pres: "\<forall>sm \<in> set (memories ?vs1).
                (\<forall>j < length cs. s_id sm \<noteq> randomUUID svc (Suc i + j)) \<longrightarrow> sm \<in> set (memories vs')"
      and pers: "\<forall>j < length cs.
                (\<forall>j' < length cs. j < j' \<longrightarrow> randomUUID svc (Suc i + j') \<noteq> randomUUID svc (Suc i + j)) \<longrightarrow>
                (\<exists>v. generateEmbedding env (cand_content (cs ! j)) = Inr v
                    \<and> toStoredMemory
                         (fullMemory (cs ! j) (randomUUID svc (Suc i + j)) (Date_now svc (Suc t + j))) v
                       \<in> set (memories vs'))"
    by blast
  have 1: "store_memories svc env i t (c # cs) vs = (Inr (), vs')"
    by (simp add: add run)
  have 2: "\<forall>sm \<in> set (memories vs).
             (\<forall>j < length (c # cs). s_id sm \<noteq> randomUUID svc (i + j)) \<longrightarrow> sm \<in> set (memories vs')"
  proof (intro ballI impI)
    fix sm
    assume sm: "sm \<in> set (memories vs)"
      and fresh: "\<forall>j < length (c # cs). s_id sm \<noteq> randomUUID svc (i + j)"
    from fresh have "s_id sm \<noteq> randomUUID svc (i + 0)" by (intro fresh [rule_format]) simp
    then have "s_id sm \<noteq> s_id ?sm0" by (simp add: id0)
    with sm have in1: "sm \<in> set (memories ?vs1)" by (simp add: upserted_keeps)
    have "\<forall>j < length cs. s_id sm \<noteq> randomUUID svc (Suc i + j)"
    proof (intro allI impI)
      fix j assume "j < length cs"
      then have "Suc j < length (c # cs)" by simp
      from fresh [rule_format, OF this] show "s_id sm \<noteq> randomUUID svc (Suc i + j)" by simp
    qed
    with pres in1 show "sm \<in> set (memories vs')" by blast
  qed
  have 3: "\<forall>j < length (c # cs).
             (\<forall>j' < length (c # cs). j < j' \<longrightarrow> randomUUID svc (i + j') \<noteq> randomUUID svc (i + j)) \<longrightarrow>
             (\<exists>v. generateEmbedding env (cand_content ((c # cs) ! j)) = Inr v
                 \<and> toStoredMemory
                      (fullMemory ((c # cs) ! j) (randomUUID svc (i + j)) (Date_now svc (t + j))) v
                    \<in> set (memories vs'))"
  proof (intro allI impI)
    fix j
    assume j: "j < length (c # cs)"
      and later: "\<forall>j' < length (c # cs). j < j' \<longrightarrow> randomUUID svc (i + j') \<noteq> randomUUID svc (i + j)"
    show "\<exists>v. generateEmbedding env (cand_content ((c # cs) ! j)) = Inr v
                 \<and> toStoredMemory
                      (fullMemory ((c # cs) ! j) (randomUUID svc (i + j)) (Date_now svc (t + j))) v
                    \<in> set (memories vs')"
    proof (cases j)
      case 0
      have in1: "?sm0 \<in> set (memories ?vs1)" by (simp add: upserted_mem)
      have "\<forall>j' < length cs. s_id ?sm0 \<noteq> randomUUID svc (Suc i + j')"
      proof (intro allI impI)
        fix j' assume "j' < length cs"
        then have "Suc j' < length (c # cs)" "j < Suc j'" using 0 by simp_all
        with later have "randomUUID svc (i + Suc j') \<noteq> randomUUID svc (i + j)" by blast
        then show "s_id ?sm0 \<noteq> randomUUID svc (Suc i + j')"
          using 0 by (simp add: id0)
      qed
      with pres in1 have "?sm0 \<in> set (memories vs')" by blast
      with v 0 show ?thesis by (intro exI [of _ v]) simp
    next
      case (Suc j0)
      with j have j0: "j0 < length cs" by simp
      have "\<forall>j' < length cs. j0 < j' \<longrightarrow>
              randomUUID svc (Suc i + j') \<noteq> randomUUID svc (Suc i + j0)"
      proof (intro allI impI)
        fix j' assume "j' < length cs" "j0 < j'"
        then have "Suc j' < length (c # cs)" "j < Suc j'" using Suc by simp_all
        with later have "randomUUID svc (i + Suc j') \<noteq> randomUUID svc (i + j)" by blast
        then show "randomUUID svc (Suc i + j') \<noteq> randomUUID svc (Suc i + j0)"
          using Suc by simp
      qed
      with pers j0 obtain v' where
        "generateEmbedding env (cand_content (cs ! j0)) = Inr v'"
        "toStoredMemory
           (fullMemory (cs ! j0) (randomUUID svc (Suc i + j0)) (Date_now svc (Suc t + j0))) v'
         \<in> set (memories vs')"
        by blast
      then show ?thesis using Suc by (intro exI [of _ v']) simp
    qed
  qed
  from 1 2 3 show ?case by blast
qed

lemma length_candidates: "length (candidates svc rel conv parsed) = length parsed"
  by (simp add: candidates_def)

lemma nth_candidates:
  "k < length parsed \<Longrightarrow>
   candidates svc rel conv parsed ! k = toCandidate rel conv (Date_now svc k) (parsed ! k)"
  by (simp add: candidates_def)

lemma candidates_content:
  "c \<in> set (candidates svc rel conv parsed) \<Longrightarrow> \<exists>m \<in> set parsed. cand_content c = rm_content m"
  by (auto simp: candidates_def toCandidate_def dest: set_zip_rightD)

lemma extractMemories_parsed:
  assumes "findSimilarMemories env conversation 5 default_minSimilarity vs = Inr similarMemories"
    and "callOpenRouter svc
           (make_prompt (existingMemories @ map r_memory similarMemories) conversation)
         = Inr response"
    and "parse_memories svc response = Inr parsed"
  shows "extractMemories svc env conversation existingMemories vs
         = (case store_memories svc env 0 (length parsed)
                  (candidates svc (existingMemories @ map r_memory similarMemories)
                     conversation parsed) vs of
              (Inl e, vs') \<Rightarrow> (Inr [], vs')
            | (Inr u, vs') \<Rightarrow>
                (Inr (map asPartial
                        (candidates svc (existingMemories @ map r_memory similarMemories)
                           conversation parsed)), vs'))"
  unfolding candidates_def using assms by (simp add: extractMemories_def Let_def)

text \<open>
  Claim C4, amended. When the language model's response parses and the embedding of every
  extracted content succeeds, \<open>extractMemories\<close> returns one record per parsed memory, with
  its type, content and confidence, and these records carry neither an id nor a timestamp;
  each candidate is stored in the vector store under the id drawn for it from
  \<open>crypto.randomUUID()\<close> and with the time read from \<open>Date.now()\<close> in the storing loop
  (the ids drawn being different from one another).
\<close>

theorem extractMemories_persists:
  assumes sims: "findSimilarMemories env conversation 5 default_minSimilarity vs
                   = Inr similarMemories"
    and call: "callOpenRouter svc
                 (make_prompt (existingMemories @ map r_memory similarMemories) conversation)
               = Inr response"
    and parse: "parse_memories svc response = Inr parsed"
    and embed: "\<forall>memory \<in> set parsed. \<exists>v. generateEmbedding env (rm_content memory) = Inr v"
  shows "\<exists>returned vs'.
           extractMemories svc env conversation existingMemories vs = (Inr returned, vs')
           \<and> length returned = length parsed
           \<and> (\<forall>k < length parsed.
                 p_id (returned ! k) = None
                 \<and> p_timestamp (returned ! k) = None
                 \<and> p_type (returned ! k) = rm_type (parsed ! k)
                 \<and> p_content (returned ! k) = rm_content (parsed ! k)
                 \<and> p_confidence (returned ! k) = Some (or_number (rm_confidence (parsed ! k)) 1))
           \<and> (inj_on (randomUUID svc) {..<length parsed} \<longrightarrow>
                (\<forall>k < length parsed.
                   \<exists>sm \<in> set (memories vs').
                     s_id sm = randomUUID svc k
                     \<and> s_content sm = rm_content (parsed ! k)
                     \<and> sm_timestamp (s_metadata sm) = Date_now svc (length parsed + k)))"
proof -
  let ?rel = "existingMemories @ map r_memory similarMemories"
  let ?cs = "candidates svc ?rel conversation parsed"
  let ?n = "length parsed"
  have "\<forall>c \<in> set ?cs. \<exists>v. generateEmbedding env (cand_content c) = Inr v"
  proof
    fix c assume "c \<in> set ?cs"
    from candidates_content [OF this] obtain m where "m \<in> set parsed" "cand_content c = rm_content m"
      by blast
    with embed show "\<exists>v. generateEmbedding env (cand_content c) = Inr v" by simp
  qed
  from store_memories_ok [OF this, of svc 0 ?n vs] obtain vs'
    where run: "store_memories svc env 0 ?n ?cs vs = (Inr (), vs')"
      and pers: "\<forall>j < length ?cs.
                (\<forall>j' < length ?cs. j < j' \<longrightarrow> randomUUID svc (0 + j') \<noteq> randomUUID svc (0 + j)) \<longrightarrow>
                (\<exists>v. generateEmbedding env (cand_content (?cs ! j)) = Inr v
                    \<and> toStoredMemory
                         (fullMemory (?cs ! j) (randomUUID svc (0 + j)) (Date_now svc (?n + j))) v
                       \<in> set (memories vs'))"
    by blast
  have res: "extractMemories svc env conversation existingMemories vs
               = (Inr (map asPartial ?cs), vs')"
    by (simp add: extractMemories_parsed [OF sims call parse] run)
  have len: "length (map asPartial ?cs) = ?n"
    by (simp add: length_candidates)
  have fields: "\<forall>k < ?n.
                 p_id (map asPartial ?cs ! k) = None
                 \<and> p_timestamp (map asPartial ?cs ! k) = None
                 \<and> p_type (map asPartial ?cs ! k) = rm_type (parsed ! k)
                 \<and> p_content (map asPartial ?cs ! k) = rm_content (parsed ! k)
                 \<and> p_confidence (map asPartial ?cs ! k)
                     = Some (or_number (rm_confidence (parsed ! k)) 1)"
    by (simp add: length_candidates nth_candidates asPartial_def toCandidate_def)
  have stored: "\<forall>k < ?n.
                   \<exists>sm \<in> set (memories vs').
                     s_id sm = randomUUID svc k
                     \<and> s_content sm = rm_content (parsed ! k)
                     \<and> sm_timestamp (s_metadata sm) = Date_now svc (?n + k)"
    if inj: "inj_on (randomUUID svc) {..<?n}"
  proof (intro allI impI)
    fix k assume k: "k < ?n"
    have "\<forall>j' < length ?cs. k < j' \<longrightarrow> randomUUID svc (0 + j') \<noteq> randomUUID svc (0 + k)"
    proof (intro allI impI)
      fix j' assume "j' < length ?cs" "k < j'"
      with k have "j' \<in> {..<?n}" "k \<in> {..<?n}" "j' \<noteq> k"
        by (simp_all add: length_candidates)
      with inj show "randomUUID svc (0 + j') \<noteq> randomUUID svc (0 + k)"
        by (auto dest: inj_onD)
    qed
    with pers k obtain v where
      mem: "toStoredMemory
              (fullMemory (?cs ! k) (randomUUID svc (0 + k)) (Date_now svc (?n + k))) v
            \<in> set (memories vs')"
      by (auto simp: length_candidates)
    show "\<exists>sm \<in> set (memories vs').
                     s_id sm = randomUUID svc k
                     \<and> s_content sm = rm_content (parsed ! k)
                     \<and> sm_timestamp (s_metadata sm) = Date_now svc (?n + k)"
      using k by (intro bexI [OF _ mem])
                 (simp add: toStoredMemory_def fullMemory_def nth_candidates toCandidate_def)
  qed
  show ?thesis
    by (rule exI [of _ "map asPartial ?cs"], rule exI [of _ vs'])
       (use res len fields stored in blast)
qed

lemma lower_CAT: "toLowerCase ''CAT'' = ''cat''"
  by code_simp

lemma lower_cat: "toLowerCase ''cat'' = ''cat''"
  by (simp add: toLowerCase_def)

lemma lower_bird: "toLowerCase ''bird'' = ''bird''"
  by (simp add: toLowerCase_def)

lemma demo_extract_similar:
  "findSimilarMemories (demo_env 10) ''my cat'' 5 default_minSimilarity demo_store = Inr []"
  by (simp add: findSimilarMemories_def demo_env_def demo_embedding_def demo_store_def
      demo_stored_def toStoredMemory_def cosineSimilarity_def js_sort_def slice0_def
      default_minSimilarity_def)

lemma demo_candidates:
  "candidates demo_service ([demo_memory ''a'' ''cat'' []] @ map r_memory []) ''my cat''
     [demo_raw ''kitten'' (Some (4 / 5)), demo_raw ''dog'' None]
   = [\<lparr>cand_type = Fact, cand_content = ''kitten'', cand_confidence = 4 / 5,
       cand_source = ''my cat...'', cand_connections = [demo_edge ''a'' (1 / 2)],
       cand_metadata = \<lparr>md_workspace = None, md_thread = None, md_context = None,
                         md_tags = Some [], md_timestamp = Some 1000\<rparr>\<rparr>,
      \<lparr>cand_type = Fact, cand_content = ''dog'', cand_confidence = 1,
       cand_source = ''my cat...'', cand_connections = [demo_edge ''a'' (1 / 2)],
       cand_metadata = \<lparr>md_workspace = None, md_thread = None, md_context = None,
                         md_tags = Some [], md_timestamp = Some 1001\<rparr>\<rparr>]"
  by (simp add: candidates_def toCandidate_def demo_raw_def demo_service_def demo_memory_def
      demo_edge_def resolve_connections_def List.map_filter_simps lower_CAT lower_cat lower_bird
      or_number_def upt_rec)

lemma demo_extract_run:
  "extractMemories demo_service (demo_env 10) ''my cat'' [demo_memory ''a'' ''cat'' []] demo_store
   = (Inr [demo_returned ''kitten'' (4 / 5) 1000, demo_returned ''dog'' 1 1001],
      \<lparr>memories =
         [demo_stored ''a'' ''cat'' [1, 0],
          toStoredMemory
            (fullMemory
               \<lparr>cand_type = Fact, cand_content = ''kitten'', cand_confidence = 4 / 5,
                cand_source = ''my cat...'', cand_connections = [demo_edge ''a'' (1 / 2)],
                cand_metadata = \<lparr>md_workspace = None, md_thread = None, md_context = None,
                                  md_tags = Some [], md_timestamp = Some 1000\<rparr>\<rparr>
               ''u'' 1002) [4 / 5, 3 / 5],
          toStoredMemory
            (fullMemory
               \<lparr>cand_type = Fact, cand_content = ''dog'', cand_confidence = 1,
                cand_source = ''my cat...'', cand_connections = [demo_edge ''a'' (1 / 2)],
                cand_metadata = \<lparr>md_workspace = None, md_thread = None, md_context = None,
                                  md_tags = Some [], md_timestamp = Some 1001\<rparr>\<rparr>
               ''uu'' 1003) [0, 1]],
       storage = Some
         [demo_stored ''a'' ''cat'' [1, 0],
          toStoredMemory
            (fullMemory
               \<lparr>cand_type = Fact, cand_content = ''kitten'', cand_confidence = 4 / 5,
                cand_source = ''my cat...'', cand_connections = [demo_edge ''a'' (1 / 2)],
                cand_metadata = \<lparr>md_workspace = None, md_thread = None, md_context = None,
                                  md_tags = Some [], md_timestamp = Some 1000\<rparr>\<rparr>
               ''u'' 1002) [4 / 5, 3 / 5],
          toStoredMemory
            (fullMemory
               \<lparr>cand_type = Fact, cand_content = ''dog'', cand_confidence = 1,
                cand_source = ''my cat...'', cand_connections = [demo_edge ''a'' (1 / 2)],
                cand_metadata = \<lparr>md_workspace = None, md_thread = None, md_context = None,
                                  md_tags = Some [], md_timestamp = Some 1001\<rparr>\<rparr>
               ''uu'' 1003) [0, 1]]\<rparr>)"
proof -
  have call: "callOpenRouter demo_service
                (make_prompt ([demo_memory ''a'' ''cat'' []] @ map r_memory []) ''my cat'')
              = Inr ''json''"
    by (simp add: demo_service_def)
  have parse: "parse_memories demo_service ''json''
                 = Inr [demo_raw ''kitten'' (Some (4 / 5)), demo_raw ''dog'' None]"
    by (simp add: demo_service_def)
  show ?thesis
    unfolding extractMemories_parsed [OF demo_extract_similar call parse] demo_candidates
    by (simp add: VectorStore_addMemory_def saveToStorage_def demo_env_def demo_embedding_def
        demo_service_def demo_store_def demo_stored_def toStoredMemory_def fullMemory_def
        demo_memory_def asPartial_def demo_returned_def Let_def)
qed

theorem extractMemories_persists_witness:
  "findSimilarMemories (demo_env 10) ''my cat'' 5 default_minSimilarity demo_store = Inr []
   \<and> callOpenRouter demo_service
         (make_prompt ([demo_memory ''a'' ''cat'' []] @ map r_memory []) ''my cat'')
       = Inr ''json''
   \<and> parse_memories demo_service ''json''
       = Inr [demo_raw ''kitten'' (Some (4 / 5)), demo_raw ''dog'' None]
   \<and> generateEmbedding (demo_env 10) (rm_content (demo_raw ''kitten'' (Some (4 / 5))))
       = Inr [4 / 5, 3 / 5]
   \<and> generateEmbedding (demo_env 10) (rm_content (demo_raw ''dog'' None)) = Inr [0, 1]
   \<and> inj_on (randomUUID demo_service)
         {..<length [demo_raw ''kitten'' (Some (4 / 5)), demo_raw ''dog'' None]}
   \<and> (\<exists>returned vs'.
         extractMemories demo_service (demo_env 10) ''my cat'' [demo_memory ''a'' ''cat'' []]
           demo_store = (Inr returned, vs')
         \<and> length returned = 2
         \<and> (\<forall>k < 2. p_id (returned ! k) = None \<and> p_timestamp (returned ! k) = None)
         \<and> (\<forall>k < 2. \<exists>sm \<in> set (memories vs'). s_id sm = randomUUID demo_service k))"
proof -
  let ?parsed = "[demo_raw ''kitten'' (Some (4 / 5)), demo_raw ''dog'' None]"
  have call: "callOpenRouter demo_service
                (make_prompt ([demo_memory ''a'' ''cat'' []] @ map r_memory []) ''my cat'')
              = Inr ''json''"
    by (simp add: demo_service_def)
  have parse: "parse_memories demo_service ''json'' = Inr ?parsed"
    by (simp add: demo_service_def)
  have embed: "\<forall>memory \<in> set ?parsed.
                 \<exists>v. generateEmbedding (demo_env 10) (rm_content memory) = Inr v"
    by (simp add: demo_env_def demo_embedding_def demo_raw_def)
  have inj: "inj_on (randomUUID demo_service) {..<length ?parsed}"
    by (simp add: inj_on_def demo_service_def)
  from extractMemories_persists [OF demo_extract_similar call parse embed]
  obtain returned vs' where
    run: "extractMemories demo_service (demo_env 10) ''my cat'' [demo_memory ''a'' ''cat'' []]
            demo_store = (Inr returned, vs')"
    and len: "length returned = length ?parsed"
    and fields: "\<forall>k < length ?parsed.
                   p_id (returned ! k) = None
                   \<and> p_timestamp (returned ! k) = None
                   \<and> p_type (returned ! k) = rm_type (?parsed ! k)
                   \<and> p_content (returned ! k) = rm_content (?parsed ! k)
                   \<and> p_confidence (returned ! k) = Some (or_number (rm_confidence (?parsed ! k)) 1)"
    and stored: "inj_on (randomUUID demo_service) {..<length ?parsed} \<longrightarrow>
                   (\<forall>k < length ?parsed.
                      \<exists>sm \<in> set (memories vs').
                        s_id sm = randomUUID demo_service k
                        \<and> s_content sm = rm_content (?parsed ! k)
                        \<and> sm_timestamp (s_metadata sm)
                            = Date_now demo_service (length ?parsed + k))"
    by (elim exE conjE)
  from len have len2: "length returned = 2" by simp
  from fields have fields2: "\<forall>k < 2. p_id (returned ! k) = None \<and> p_timestamp (returned ! k) = None"
    by simp
  from stored inj have all_stored:
    "\<forall>k < length ?parsed.
       \<exists>sm \<in> set (memories vs').
         s_id sm = randomUUID demo_service k
         \<and> s_content sm = rm_content (?parsed ! k)
         \<and> sm_timestamp (s_metadata sm) = Date_now demo_service (length ?parsed + k)"
    by (rule mp)
  have stored2:
    "\<forall>k < 2. \<exists>sm \<in> set (memories vs'). s_id sm = randomUUID demo_service k"
  proof (intro allI impI)
    fix k :: nat
    assume "k < 2"
    then have "k < length ?parsed" by simp
    from all_stored [rule_format, OF this] obtain sm
      where "sm \<in> set (memories vs')" "s_id sm = randomUUID demo_service k"
      by blast
    then show "\<exists>sm \<in> set (memories vs'). s_id sm = randomUUID demo_service k"
      by blast
  qed
  from run len2 fields2 stored2
  have "\<exists>returned vs'.
         extractMemories demo_service (demo_env 10) ''my cat'' [demo_memory ''a'' ''cat'' []]
           demo_store = (Inr returned, vs')
         \<and> length returned = 2
         \<and> (\<forall>k < 2. p_id (returned ! k) = None \<and> p_timestamp (returned ! k) = None)
         \<and> (\<forall>k < 2. \<exists>sm \<in> set (memories vs'). s_id sm = randomUUID demo_service k)"
    by (intro exI conjI)
  moreover have "generateEmbedding (demo_env 10) (rm_content (demo_raw ''kitten'' (Some (4 / 5))))
                   = Inr [4 / 5, 3 / 5]"
    by (simp add: demo_env_def demo_embedding_def demo_raw_def)
  moreover have "generateEmbedding (demo_env 10) (rm_content (demo_raw ''dog'' None)) = Inr [0, 1]"
    by (simp add: demo_env_def demo_embedding_def demo_raw_def)
  ultimately show ?thesis
    using demo_extract_similar call parse inj by (intro conjI)
qed

text \<open>
  Claim C4, as stated: the returned records have id and timestamp assigned. At a response that
  parses into two memories they have neither: the ids and timestamps go only into the copies
  handed to the vector store.
\<close>

theorem extractMemories_returned_counterexample:
  "parse_memories demo_service ''json''
     = Inr [demo_raw ''kitten'' (Some (4 / 5)), demo_raw ''dog'' None]
   \<and> fst (extractMemories demo_service (demo_env 10) ''my cat'' [demo_memory ''a'' ''cat'' []]
            demo_store)
       = Inr [demo_returned ''kitten'' (4 / 5) 1000, demo_returned ''dog'' 1 1001]
   \<and> p_id (demo_returned ''kitten'' (4 / 5) 1000) = None
   \<and> p_timestamp (demo_returned ''kitten'' (4 / 5) 1000) = None
   \<and> p_id (demo_returned ''dog'' 1 1001) = None
   \<and> p_timestamp (demo_returned ''dog'' 1 1001) = None"
  by (simp add: demo_extract_run) (simp add: demo_service_def demo_returned_def)

end
